theory Spec2Isabelle
  imports Main "HOL-Library.Word"
begin

unbundle bit_operations_syntax

section \<open>The S2MPU driver of the nVHE hypervisor (s2mpu.c)\<close>

text \<open>
  A shallow embedding of \<^verbatim>\<open>arch/arm64/kvm/hyp/nvhe/iommu/s2mpu.c\<close>.
  Every MMIO access and every call into the memory-donation layer is appended to a trace
  of events, in program order. What a device register returns on a read is not decided
  by the driver: it is given by an oracle that sees the whole access history.
\<close>

type_synonym u8 = "8 word"
type_synonym u32 = "32 word"
type_synonym u64 = "64 word"

subsection \<open>Constants of the headers\<close>

text \<open>
  The register offsets, field masks and bit values come from \<^verbatim>\<open>asm/kvm_s2mpu.h\<close>,
  \<^verbatim>\<open>asm/io-mpt-s2mpu.h\<close> and \<^verbatim>\<open>asm/esr.h\<close>, which are not
  part of the sources at hand. They are parameters of the model, grouped in records.
  Macros with arguments are function-valued fields.
\<close>

record s2mpu_regs =
  REG_NS_CTRL0 :: u64
  REG_NS_CTRL1 :: u64
  REG_NS_CFG :: u64
  REG_NS_INTERRUPT_ENABLE_PER_VID_SET :: u64
  REG_NS_INTERRUPT_CLEAR :: u64
  REG_NS_VERSION :: u64
  REG_NS_INFO :: u64
  REG_NS_STATUS :: u64
  REG_NS_NUM_CONTEXT :: u64
  REG_NS_CONTEXT_CFG_VALID_VID :: u64
  REG_NS_ALL_INVALIDATION :: u64
  REG_NS_RANGE_INVALIDATION :: u64
  REG_NS_RANGE_INVALIDATION_START_PPN :: u64
  REG_NS_RANGE_INVALIDATION_END_PPN :: u64
  REG_NS_FAULT_STATUS :: u64
  REG_NS_FAULT_PA_LOW :: "nat \<Rightarrow> u64"
  REG_NS_FAULT_PA_HIGH :: "nat \<Rightarrow> u64"
  REG_NS_FAULT_INFO :: "nat \<Rightarrow> u64"
  REG_NS_FAULT_VID_MASK :: u64
  REG_NS_READ_MPTC :: u64
  REG_NS_READ_MPTC_TAG_PPN :: u64
  REG_NS_READ_MPTC_TAG_OTHERS :: u64
  REG_NS_READ_MPTC_DATA :: u64
  REG_NS_L1ENTRY_L2TABLE_ADDR :: "nat \<Rightarrow> nat \<Rightarrow> u64"
  REG_NS_L1ENTRY_ATTR :: "nat \<Rightarrow> nat \<Rightarrow> u64"
  REG_NS_SYNC_CMD :: u64
  REG_NS_SYNC_COMP :: u64

record s2mpu_regs_v9 =
  REG_NS_V9_CTRL_ERR_RESP_T_PER_VID_SET :: u64
  REG_NS_V9_CTRL_PROT_EN_PER_VID_SET :: u64
  REG_NS_V9_CFG_MPTW_ATTRIBUTE :: u64
  REG_NS_V9_READ_STLB :: u64
  REG_NS_V9_READ_STLB_TPN :: u64
  REG_NS_V9_READ_STLB_TAG_PPN :: u64
  REG_NS_V9_READ_STLB_TAG_OTHERS :: u64
  REG_NS_V9_READ_STLB_DATA :: u64
  REG_NS_V9_MPTC_INFO :: u64
  REG_NS_V9_READ_MPTC :: u64
  REG_NS_V9_READ_MPTC_TAG_PPN :: u64
  REG_NS_V9_READ_MPTC_TAG_OTHERS :: u64
  REG_NS_V9_READ_MPTC_DATA :: u64
  REG_NS_V9_PMMU_INFO :: u64
  REG_NS_V9_READ_PTLB :: u64
  REG_NS_V9_READ_PTLB_TAG :: u64
  REG_NS_V9_READ_PTLB_DATA_S1_EN_PPN_AP :: u64
  REG_NS_V9_READ_PTLB_DATA_S1_DIS_AP_LIST :: u64
  REG_NS_V9_PMMU_INDICATOR :: u64
  REG_NS_V9_SWALKER_INFO :: u64
  REG_NS_V9_PMMU_PTLB_INFO :: "nat \<Rightarrow> u64"
  REG_NS_V9_STLB_INFO :: "nat \<Rightarrow> u64"
  V9_MAX_PTLB_NUM :: nat
  V9_MAX_STLB_NUM :: nat

record s2mpu_masks =
  CTRL0_MASK :: u32
  CTRL1_MASK :: u32
  CFG_MASK :: u32
  INFO_NUM_SET_MASK :: u32
  READ_MPTC_MASK :: u32
  READ_MPTC_TAG_PPN_MASK :: u32
  READ_MPTC_TAG_OTHERS_MASK :: u32
  V9_CTRL0_MASK :: u32
  V9_READ_STLB_MASK_TYPEA :: u32
  V9_READ_STLB_MASK_TYPEB :: u32
  V9_READ_STLB_TPN_MASK :: u32
  V9_READ_STLB_TAG_PPN_MASK :: u32
  V9_READ_STLB_TAG_OTHERS_MASK :: u32
  V9_READ_MPTC_INFO_MASK :: u32
  V9_READ_MPTC_MASK :: u32
  V9_READ_MPTC_TAG_PPN_MASK :: u32
  V9_READ_MPTC_TAG_OTHERS_MASK :: u32
  V9_READ_PMMU_INFO_MASK :: u32
  V9_READ_PTLB_MASK :: u32
  V9_READ_PTLB_TAG_MASK :: u32
  V9_READ_PTLB_DATA_S1_ENABLE_PPN_AP_MASK :: u32
  V9_READ_PMMU_INDICATOR_MASK :: u32
  V9_SWALKER_INFO_MASK :: u32
  V9_READ_PMMU_PTLB_INFO_MASK :: u32
  V9_READ_SLTB_INFO_MASK :: u32

record s2mpu_vals =
  ALL_VIDS_BITMAP :: u32
  NR_VIDS :: nat
  VERSION_CHECK_MASK :: u32
  S2MPU_VERSION_1 :: u32
  S2MPU_VERSION_2 :: u32
  S2MPU_VERSION_9 :: u32
  NUM_CONTEXT_MASK :: u32
  CONTEXT_CFG_VALID_VID_CTX_VID :: "nat \<Rightarrow> u8 \<Rightarrow> u32"
  CONTEXT_CFG_VALID_VID_CTX_VALID :: "nat \<Rightarrow> u32"
  CTRL0_ENABLE :: u32
  CTRL0_INTERRUPT_ENABLE :: u32
  CTRL0_FAULT_RESP_TYPE_DECERR :: u32
  CTRL0_FAULT_RESP_TYPE_SLVERR :: u32
  SYNC_CMD_SYNC :: u32
  SYNC_COMP_COMPLETE :: u32
  STATUS_BUSY :: u32
  STATUS_ON_INVALIDATING :: u32
  INVALIDATION_INVALIDATE :: u32
  RANGE_INVALIDATION_PPN_SHIFT :: nat
  NR_GIGABYTES :: nat
  SMPT_GRAN :: u64
  PAGE_SIZE :: u64
  PAGE_SHIFT :: nat
  MPT_PROT_NONE :: u32
  MPT_PROT_R :: u32
  MPT_PROT_W :: u32
  MPT_PROT_RW :: u32
  KVM_PGTABLE_PROT_R :: u64
  KVM_PGTABLE_PROT_W :: u64
  ESR_ELx_WNR :: u32
  ESR_ELx_SAS :: u32
  ESR_ELx_SAS_SHIFT :: nat
  ESR_ELx_SRT_MASK :: u32
  ESR_ELx_SRT_SHIFT :: nat

record hdr =
  regs :: s2mpu_regs
  regs9 :: s2mpu_regs_v9
  masks :: s2mpu_masks
  vals :: s2mpu_vals


subsection \<open>Events, external collaborators, devices\<close>

text \<open>
  \<open>Readl a v\<close>: a 32-bit relaxed load from address \<open>a\<close> that returned \<open>v\<close>.
  \<open>Writel a v\<close>: a 32-bit relaxed store of \<open>v\<close> to address \<open>a\<close>.
  \<open>HostDonateHyp pfn n r\<close> and \<open>HypDonateHost pfn n r\<close>: a call of
  \<^verbatim>\<open>__pkvm_host_donate_hyp(pfn, n)\<close>, respectively
  \<^verbatim>\<open>__pkvm_hyp_donate_host(pfn, n)\<close>, that returned \<open>r\<close>.
\<close>

datatype event =
    Readl u64 u32
  | Writel u64 u32
  | HostDonateHyp u64 u64 int
  | HypDonateHost u64 u64 int

type_synonym trace = "event list"

text \<open>One entry of the protection table per gigabyte, and the table (\<^verbatim>\<open>struct fmpt\<close>,
  \<^verbatim>\<open>struct mpt\<close>); \<open>smpt\<close> is a pointer, \<open>0\<close> is \<^verbatim>\<open>NULL\<close>.\<close>

record fmpt =
  smpt :: u64
  gran_1g :: bool
  prot :: u32

record mpt =
  mpt_version :: u32
  fmpt :: "fmpt list"

text \<open>The page-table encoder (\<^verbatim>\<open>struct s2mpu_mpt_ops\<close>) is an external collaborator.
  Its operations on a device are given by the events they perform.\<close>

record s2mpu_mpt_ops =
  smpt_size :: u32
  init_with_prot :: "u64 \<Rightarrow> u32 \<Rightarrow> trace"
  init_with_mpt :: "u64 \<Rightarrow> mpt \<Rightarrow> trace"
  apply_range :: "u64 \<Rightarrow> mpt \<Rightarrow> u32 \<Rightarrow> u32 \<Rightarrow> trace"
  prepare_range :: "mpt \<Rightarrow> u64 \<Rightarrow> u64 \<Rightarrow> u32 \<Rightarrow> mpt"

text \<open>The environment: what a register read returns and what a donation returns, each
  as a function of the history so far; the address translations of the hypervisor; the
  lookup of the page-table encoder for a version.\<close>

record env =
  readl_relaxed :: "trace \<Rightarrow> u64 \<Rightarrow> u32"
  pkvm_host_donate_hyp :: "trace \<Rightarrow> u64 \<Rightarrow> u64 \<Rightarrow> int"
  pkvm_hyp_donate_host :: "trace \<Rightarrow> u64 \<Rightarrow> u64 \<Rightarrow> int"
  kern_hyp_va :: "u64 \<Rightarrow> u64"
  hyp_pa :: "u64 \<Rightarrow> u64"
  s2mpu_get_mpt_ops :: "u32 \<Rightarrow> s2mpu_mpt_ops option"

record s2mpu_drv_data =
  version :: u32
  context_cfg_valid_vid :: u32

text \<open>A device (\<^verbatim>\<open>struct pkvm_iommu\<close>): the base of its MMIO window, the size of
  the window, the driver data, and the MMIO bases of its SysMMU_SYNC children in list order.\<close>

record pkvm_iommu =
  va :: u64
  dev_size :: u64
  data :: s2mpu_drv_data
  children :: "u64 list"

definition readl :: "env \<Rightarrow> u64 \<Rightarrow> trace \<Rightarrow> u32 \<times> trace" where
  "readl e a tr = (let v = readl_relaxed e tr a in (v, tr @ [Readl a v]))"

definition writel :: "u32 \<Rightarrow> u64 \<Rightarrow> trace \<Rightarrow> trace" where
  "writel v a tr = tr @ [Writel a v]"

definition SYNC_MAX_RETRIES :: nat where "SYNC_MAX_RETRIES = 5"
definition SYNC_TIMEOUT :: nat where "SYNC_TIMEOUT = 5"
definition SYNC_TIMEOUT_MULTIPLIER :: nat where "SYNC_TIMEOUT_MULTIPLIER = 3"

subsection \<open>Polling and the invalidation barrier\<close>

text \<open>\<^verbatim>\<open>__wait_until\<close>: the \<^verbatim>\<open>for\<close> loop from counter \<open>i\<close> on.\<close>

function wait_until_loop :: "env \<Rightarrow> u64 \<Rightarrow> u32 \<Rightarrow> nat \<Rightarrow> nat \<Rightarrow> trace \<Rightarrow> bool \<times> trace" where
  "wait_until_loop e addr msk max_attempts i tr =
     (if i < max_attempts then
        (case readl e addr tr of (v, tr') \<Rightarrow>
           if v AND msk = msk then (True, tr')
           else wait_until_loop e addr msk max_attempts (i + 1) tr')
      else (False, tr))"
  by pat_completeness auto
termination
  by (relation "measure (\<lambda>(e, addr, msk, max_attempts, i, tr). max_attempts - i)") auto

definition wait_until :: "env \<Rightarrow> u64 \<Rightarrow> u32 \<Rightarrow> nat \<Rightarrow> trace \<Rightarrow> bool \<times> trace" where
  "wait_until e addr msk max_attempts tr = wait_until_loop e addr msk max_attempts 0 tr"

text \<open>\<^verbatim>\<open>__wait_while\<close> has no bound: \<open>None\<close> is the loop that never exits.\<close>

partial_function (option) wait_while :: "env \<Rightarrow> u64 \<Rightarrow> u32 \<Rightarrow> trace \<Rightarrow> trace option" where
  "wait_while e addr msk tr =
     (case readl e addr tr of (v, tr') \<Rightarrow>
        if v AND msk = msk then wait_while e addr msk tr' else Some tr')"

definition sync_cmd_start :: "hdr \<Rightarrow> u64 \<Rightarrow> trace \<Rightarrow> trace" where
  "sync_cmd_start c sync tr = writel (SYNC_CMD_SYNC (vals c)) (sync + REG_NS_SYNC_CMD (regs c)) tr"

text \<open>\<^verbatim>\<open>__invalidation_barrier_slow\<close>: the \<^verbatim>\<open>for\<close> loop from counter \<open>i\<close> on,
  with the current \<open>timeout\<close>.\<close>

function invalidation_barrier_slow_loop ::
    "hdr \<Rightarrow> env \<Rightarrow> u64 \<Rightarrow> nat \<Rightarrow> nat \<Rightarrow> trace \<Rightarrow> trace" where
  "invalidation_barrier_slow_loop c e sync i timeout tr =
     (if i < SYNC_MAX_RETRIES then
        (case wait_until e (sync + REG_NS_SYNC_COMP (regs c)) (SYNC_COMP_COMPLETE (vals c)) timeout
                (sync_cmd_start c sync tr) of
           (ok, tr') \<Rightarrow>
             if ok then tr'
             else invalidation_barrier_slow_loop c e sync (i + 1)
                    (timeout * SYNC_TIMEOUT_MULTIPLIER) tr')
      else tr)"
  by pat_completeness auto
termination
  by (relation "measure (\<lambda>(c, e, sync, i, timeout, tr). SYNC_MAX_RETRIES - i)") auto

definition invalidation_barrier_slow :: "hdr \<Rightarrow> env \<Rightarrow> u64 \<Rightarrow> trace \<Rightarrow> trace" where
  "invalidation_barrier_slow c e sync tr =
     invalidation_barrier_slow_loop c e sync 0 SYNC_TIMEOUT tr"


subsection \<open>Version check and context configuration\<close>

definition is_version :: "hdr \<Rightarrow> pkvm_iommu \<Rightarrow> u32 \<Rightarrow> bool" where
  "is_version c dev ver = (version (data dev) AND VERSION_CHECK_MASK (vals c) = ver)"

text \<open>\<^verbatim>\<open>__ffs\<close>: the index of the least significant set bit (undefined for \<open>0\<close> in C;
  the driver only calls it on a non-zero word).\<close>

definition ffs :: "u32 \<Rightarrow> nat" where
  "ffs w = length (takeWhile (\<lambda>i. \<not> bit w i) [0..<32])"

definition NR_CTX_IDS :: nat where "NR_CTX_IDS = 8"

definition CTX_CFG_ENTRY :: "hdr \<Rightarrow> nat \<Rightarrow> nat \<Rightarrow> u8 \<Rightarrow> u32" where
  "CTX_CFG_ENTRY c ctxid nr_ctx vid =
     (CONTEXT_CFG_VALID_VID_CTX_VID (vals c) ctxid vid
      OR (if ctxid < nr_ctx then CONTEXT_CFG_VALID_VID_CTX_VALID (vals c) ctxid else 0))"

text \<open>The \<^verbatim>\<open>while\<close> loop of \<^verbatim>\<open>__context_cfg_valid_vid\<close>. The array
  \<open>ctx_vid\<close> has \<open>NR_CTX_IDS\<close> elements; a store past its end is undefined behaviour
  in C and is \<open>None\<close> here.\<close>

function context_cfg_loop :: "u32 \<Rightarrow> nat \<Rightarrow> nat \<Rightarrow> u8 list \<Rightarrow> (nat \<times> u8 list) option" where
  "context_cfg_loop vid_bmap num_ctx ctx ctx_vid =
     (if vid_bmap \<noteq> 0 then
        (if ctx \<ge> num_ctx then Some (ctx, ctx_vid)
         else if ctx < length ctx_vid then
           context_cfg_loop (vid_bmap AND NOT (push_bit (ffs vid_bmap) 1)) num_ctx (ctx + 1)
             (ctx_vid[ctx := of_nat (ffs vid_bmap)])
         else None)
      else Some (ctx, ctx_vid))"
  by pat_completeness auto
termination
  by (relation "measure (\<lambda>(vid_bmap, num_ctx, ctx, ctx_vid). length ctx_vid - ctx)") auto

text \<open>The unrolled loop of \<^verbatim>\<open>__context_cfg_valid_vid\<close> that builds the register value
  from the number of allocated contexts and the array.\<close>

definition context_cfg_res :: "hdr \<Rightarrow> nat \<Rightarrow> u8 list \<Rightarrow> u32" where
  "context_cfg_res c ctx ctx_vid =
     (CTX_CFG_ENTRY c 0 ctx (ctx_vid ! 0)
      OR CTX_CFG_ENTRY c 1 ctx (ctx_vid ! 1)
      OR CTX_CFG_ENTRY c 2 ctx (ctx_vid ! 2)
      OR CTX_CFG_ENTRY c 3 ctx (ctx_vid ! 3)
      OR CTX_CFG_ENTRY c 4 ctx (ctx_vid ! 4)
      OR CTX_CFG_ENTRY c 5 ctx (ctx_vid ! 5)
      OR CTX_CFG_ENTRY c 6 ctx (ctx_vid ! 6)
      OR CTX_CFG_ENTRY c 7 ctx (ctx_vid ! 7))"

text \<open>\<^verbatim>\<open>__context_cfg_valid_vid\<close>. The result is \<open>None\<close> when the loop overruns the array.\<close>

definition context_cfg_valid_vid_fn ::
    "hdr \<Rightarrow> env \<Rightarrow> pkvm_iommu \<Rightarrow> u32 \<Rightarrow> trace \<Rightarrow> (u32 \<times> pkvm_iommu \<times> trace) option" where
  "context_cfg_valid_vid_fn c e dev vid_bmap tr =
     (if context_cfg_valid_vid (data dev) \<noteq> 0 then Some (context_cfg_valid_vid (data dev), dev, tr)
      else
        (case readl e (va dev + REG_NS_NUM_CONTEXT (regs c)) tr of (v, tr') \<Rightarrow>
           (case context_cfg_loop vid_bmap (unat (v AND NUM_CONTEXT_MASK (vals c))) 0
                   (replicate NR_CTX_IDS 0) of
              None \<Rightarrow> None
            | Some (ctx, ctx_vid) \<Rightarrow>
                (let res = context_cfg_res c ctx ctx_vid
                 in Some (res, dev\<lparr>data := (data dev)\<lparr>context_cfg_valid_vid := res\<rparr>\<rparr>, tr')))))"

definition EINVAL :: int where "EINVAL = 22"

text \<open>\<^verbatim>\<open>__initialize_v2\<close>: the return code, the device and the trace.\<close>

definition initialize_v2 ::
    "hdr \<Rightarrow> env \<Rightarrow> pkvm_iommu \<Rightarrow> trace \<Rightarrow> (int \<times> pkvm_iommu \<times> trace) option" where
  "initialize_v2 c e dev tr =
     (case context_cfg_valid_vid_fn c e dev (ALL_VIDS_BITMAP (vals c)) tr of
        None \<Rightarrow> None
      | Some (ctx_cfg, dev', tr') \<Rightarrow>
          if ctx_cfg = 0 then Some (- EINVAL, dev', tr')
          else Some (0, dev', writel ctx_cfg (va dev' + REG_NS_CONTEXT_CFG_VALID_VID (regs c)) tr'))"

text \<open>\<^verbatim>\<open>__initialize\<close>.\<close>

definition initialize ::
    "hdr \<Rightarrow> env \<Rightarrow> pkvm_iommu \<Rightarrow> trace \<Rightarrow> (int \<times> pkvm_iommu \<times> trace) option" where
  "initialize c e dev tr =
     (case (if version (data dev) = 0 then
              (case readl e (va dev + REG_NS_VERSION (regs c)) tr of (v, tr') \<Rightarrow>
                 (dev\<lparr>data := (data dev)\<lparr>version := v\<rparr>\<rparr>, tr'))
            else (dev, tr)) of
        (dev1, tr1) \<Rightarrow>
          (let ver = version (data dev1) AND VERSION_CHECK_MASK (vals c) in
           if ver = S2MPU_VERSION_1 (vals c) then Some (0, dev1, tr1)
           else if ver = S2MPU_VERSION_2 (vals c) then initialize_v2 c e dev1 tr1
           else Some (- EINVAL, dev1, tr1)))"

subsection \<open>Control registers\<close>

text \<open>\<^verbatim>\<open>__set_control_regs\<close> and \<^verbatim>\<open>__set_control_regs_v9\<close>.\<close>

definition set_control_regs :: "hdr \<Rightarrow> pkvm_iommu \<Rightarrow> trace \<Rightarrow> trace" where
  "set_control_regs c dev tr =
     (let ctrl0 = 0 OR CTRL0_ENABLE (vals c);
          ctrl0 = ctrl0 OR CTRL0_INTERRUPT_ENABLE (vals c);
          irq_vids = ALL_VIDS_BITMAP (vals c);
          ctrl0 = ctrl0 OR (if is_version c dev (S2MPU_VERSION_2 (vals c))
                            then CTRL0_FAULT_RESP_TYPE_DECERR (vals c)
                            else CTRL0_FAULT_RESP_TYPE_SLVERR (vals c));
          tr = writel irq_vids (va dev + REG_NS_INTERRUPT_ENABLE_PER_VID_SET (regs c)) tr;
          tr = writel 0 (va dev + REG_NS_CFG (regs c)) tr;
          tr = writel 0 (va dev + REG_NS_CTRL1 (regs c)) tr
      in writel ctrl0 (va dev + REG_NS_CTRL0 (regs c)) tr)"

definition set_control_regs_v9 :: "hdr \<Rightarrow> pkvm_iommu \<Rightarrow> trace \<Rightarrow> trace" where
  "set_control_regs_v9 c dev tr =
     (let tr = writel (ALL_VIDS_BITMAP (vals c))
                 (va dev + REG_NS_V9_CTRL_ERR_RESP_T_PER_VID_SET (regs9 c)) tr;
          tr = writel (ALL_VIDS_BITMAP (vals c))
                 (va dev + REG_NS_INTERRUPT_ENABLE_PER_VID_SET (regs c)) tr;
          tr = writel 0 (va dev + REG_NS_CTRL0 (regs c)) tr;
          tr = writel (ALL_VIDS_BITMAP (vals c))
                 (va dev + REG_NS_V9_CTRL_PROT_EN_PER_VID_SET (regs9 c)) tr
      in writel 0 (va dev + REG_NS_V9_CFG_MPTW_ATTRIBUTE (regs9 c)) tr)"

subsection \<open>Invalidation\<close>

text \<open>\<^verbatim>\<open>__invalidation_barrier_init\<close>: \<^verbatim>\<open>for_each_child\<close> walks the children in list order.\<close>

definition invalidation_barrier_init :: "hdr \<Rightarrow> pkvm_iommu \<Rightarrow> trace \<Rightarrow> trace" where
  "invalidation_barrier_init c dev tr = fold (\<lambda>sync tr. sync_cmd_start c sync tr) (children dev) tr"

text \<open>The body of the loop over the children in \<^verbatim>\<open>__invalidation_barrier_complete\<close>.\<close>

definition barrier_complete_child :: "hdr \<Rightarrow> env \<Rightarrow> u64 \<Rightarrow> trace \<Rightarrow> trace" where
  "barrier_complete_child c e sync tr =
     (case readl e (sync + REG_NS_SYNC_COMP (regs c)) tr of (v, tr') \<Rightarrow>
        if v AND SYNC_COMP_COMPLETE (vals c) = 0 then invalidation_barrier_slow c e sync tr'
        else tr')"

text \<open>The loop over the children: \<^verbatim>\<open>for_each_child\<close> in list order.\<close>

definition barrier_complete_children :: "hdr \<Rightarrow> env \<Rightarrow> pkvm_iommu \<Rightarrow> trace \<Rightarrow> trace" where
  "barrier_complete_children c e dev tr =
     fold (\<lambda>sync tr. barrier_complete_child c e sync tr) (children dev) tr"

text \<open>\<^verbatim>\<open>__invalidation_barrier_complete\<close>: \<open>None\<close> when the wait on
  \<^verbatim>\<open>STATUS\<close> never ends.\<close>

definition invalidation_barrier_complete :: "hdr \<Rightarrow> env \<Rightarrow> pkvm_iommu \<Rightarrow> trace \<Rightarrow> trace option" where
  "invalidation_barrier_complete c e dev tr =
     (let tr1 = barrier_complete_children c e dev tr in
      if is_version c dev (S2MPU_VERSION_2 (vals c)) \<or> is_version c dev (S2MPU_VERSION_9 (vals c))
      then wait_while e (va dev + REG_NS_STATUS (regs c))
             (STATUS_BUSY (vals c) OR STATUS_ON_INVALIDATING (vals c)) tr1
      else Some tr1)"

text \<open>\<^verbatim>\<open>__all_invalidation\<close> and \<^verbatim>\<open>__range_invalidation_init\<close>.\<close>

definition all_invalidation :: "hdr \<Rightarrow> env \<Rightarrow> pkvm_iommu \<Rightarrow> trace \<Rightarrow> trace option" where
  "all_invalidation c e dev tr =
     invalidation_barrier_complete c e dev
       (invalidation_barrier_init c dev
          (writel (INVALIDATION_INVALIDATE (vals c)) (va dev + REG_NS_ALL_INVALIDATION (regs c)) tr))"

definition range_invalidation_init :: "hdr \<Rightarrow> pkvm_iommu \<Rightarrow> u64 \<Rightarrow> u64 \<Rightarrow> trace \<Rightarrow> trace" where
  "range_invalidation_init c dev first_byte last_byte tr =
     (let start_ppn = (ucast (drop_bit (RANGE_INVALIDATION_PPN_SHIFT (vals c)) first_byte) :: u32);
          end_ppn = (ucast (drop_bit (RANGE_INVALIDATION_PPN_SHIFT (vals c)) last_byte) :: u32);
          tr = writel start_ppn (va dev + REG_NS_RANGE_INVALIDATION_START_PPN (regs c)) tr;
          tr = writel end_ppn (va dev + REG_NS_RANGE_INVALIDATION_END_PPN (regs c)) tr;
          tr = writel (INVALIDATION_INVALIDATE (vals c))
                 (va dev + REG_NS_RANGE_INVALIDATION (regs c)) tr
      in invalidation_barrier_init c dev tr)"

subsection \<open>The version-specific operations\<close>

text \<open>\<^verbatim>\<open>struct s2mpu_reg_ops\<close> has two instances; the global \<^verbatim>\<open>reg_ops\<close> points to
  one of them after \<^verbatim>\<open>s2mpu_init\<close>. The functions below are the members of the instance.\<close>

datatype s2mpu_reg_ops = ops_v1_v2 | ops_v9

fun reg_ops_init ::
    "s2mpu_reg_ops \<Rightarrow> hdr \<Rightarrow> env \<Rightarrow> pkvm_iommu \<Rightarrow> trace \<Rightarrow> (int \<times> pkvm_iommu \<times> trace) option" where
  "reg_ops_init ops_v1_v2 = initialize"
| "reg_ops_init ops_v9 = initialize_v2"

fun reg_ops_set_control_regs :: "s2mpu_reg_ops \<Rightarrow> hdr \<Rightarrow> pkvm_iommu \<Rightarrow> trace \<Rightarrow> trace" where
  "reg_ops_set_control_regs ops_v1_v2 = set_control_regs"
| "reg_ops_set_control_regs ops_v9 = set_control_regs_v9"

subsection \<open>Bring-up: resume and suspend\<close>

definition initialize_with_prot ::
    "hdr \<Rightarrow> env \<Rightarrow> s2mpu_mpt_ops \<Rightarrow> s2mpu_reg_ops \<Rightarrow> pkvm_iommu \<Rightarrow> u32 \<Rightarrow> trace
       \<Rightarrow> (int \<times> pkvm_iommu \<times> trace) option" where
  "initialize_with_prot c e mops rops dev prt tr =
     (case reg_ops_init rops c e dev tr of
        None \<Rightarrow> None
      | Some (ret, dev1, tr1) \<Rightarrow>
          if ret \<noteq> 0 then Some (ret, dev1, tr1)
          else
            (case all_invalidation c e dev1 (tr1 @ init_with_prot mops (va dev1) prt) of
               None \<Rightarrow> None
             | Some tr2 \<Rightarrow> Some (0, dev1, reg_ops_set_control_regs rops c dev1 tr2)))"

definition initialize_with_mpt ::
    "hdr \<Rightarrow> env \<Rightarrow> s2mpu_mpt_ops \<Rightarrow> s2mpu_reg_ops \<Rightarrow> pkvm_iommu \<Rightarrow> mpt \<Rightarrow> trace
       \<Rightarrow> (int \<times> pkvm_iommu \<times> trace) option" where
  "initialize_with_mpt c e mops rops dev m tr =
     (case reg_ops_init rops c e dev tr of
        None \<Rightarrow> None
      | Some (ret, dev1, tr1) \<Rightarrow>
          if ret \<noteq> 0 then Some (ret, dev1, tr1)
          else
            (case all_invalidation c e dev1 (tr1 @ init_with_mpt mops (va dev1) m) of
               None \<Rightarrow> None
             | Some tr2 \<Rightarrow> Some (0, dev1, reg_ops_set_control_regs rops c dev1 tr2)))"

definition s2mpu_resume ::
    "hdr \<Rightarrow> env \<Rightarrow> s2mpu_mpt_ops \<Rightarrow> s2mpu_reg_ops \<Rightarrow> mpt \<Rightarrow> pkvm_iommu \<Rightarrow> trace
       \<Rightarrow> (int \<times> pkvm_iommu \<times> trace) option" where
  "s2mpu_resume c e mops rops host_mpt dev tr = initialize_with_mpt c e mops rops dev host_mpt tr"

definition s2mpu_suspend ::
    "hdr \<Rightarrow> env \<Rightarrow> s2mpu_mpt_ops \<Rightarrow> s2mpu_reg_ops \<Rightarrow> pkvm_iommu \<Rightarrow> trace
       \<Rightarrow> (int \<times> pkvm_iommu \<times> trace) option" where
  "s2mpu_suspend c e mops rops dev tr =
     initialize_with_prot c e mops rops dev (MPT_PROT_NONE (vals c)) tr"


subsection \<open>Identity-map updates\<close>

definition SZ_1G :: u64 where "SZ_1G = 0x40000000"

definition PA_MAX :: "hdr \<Rightarrow> u64" where
  "PA_MAX c = SZ_1G * of_nat (NR_GIGABYTES (vals c))"

text \<open>Modelled from the spec: the macros \<^verbatim>\<open>ALIGN\<close> and \<^verbatim>\<open>ALIGN_DOWN\<close> of
  \<^verbatim>\<open>linux/align.h\<close> are not among the sources. The spec says that the start is aligned
  down and the end is aligned up to the granule; for a granule that is a power of two
  this is rounding with the mask \<open>a - 1\<close>, in 64-bit arithmetic.\<close>

definition ALIGN_DOWN :: "u64 \<Rightarrow> u64 \<Rightarrow> u64" where
  "ALIGN_DOWN x a = x AND NOT (a - 1)"

definition ALIGN :: "u64 \<Rightarrow> u64 \<Rightarrow> u64" where
  "ALIGN x a = (x + (a - 1)) AND NOT (a - 1)"

text \<open>\<^verbatim>\<open>to_valid_range\<close> returns \<^verbatim>\<open>false\<close> (here \<open>None\<close>) without storing through its
  pointers, or \<^verbatim>\<open>true\<close> with the new start and end.\<close>

definition to_valid_range :: "hdr \<Rightarrow> u64 \<Rightarrow> u64 \<Rightarrow> (u64 \<times> u64) option" where
  "to_valid_range c start end =
     (let new_start = start;
          new_end = end;
          new_end = (if new_end > PA_MAX c then PA_MAX c else new_end);
          new_start = ALIGN_DOWN new_start (SMPT_GRAN (vals c));
          new_end = ALIGN new_end (SMPT_GRAN (vals c))
      in if new_start \<ge> new_end then None else Some (new_start, new_end))"

definition prot_to_mpt :: "hdr \<Rightarrow> u64 \<Rightarrow> u32" where
  "prot_to_mpt c prt =
     ((if prt AND KVM_PGTABLE_PROT_R (vals c) \<noteq> 0 then MPT_PROT_R (vals c) else 0)
      OR (if prt AND KVM_PGTABLE_PROT_W (vals c) \<noteq> 0 then MPT_PROT_W (vals c) else 0))"

text \<open>The state that the identity-map operations work on: the global \<^verbatim>\<open>host_mpt\<close>
  and the trace of the accesses made so far.\<close>

definition mpt_idmap_prepare :: "s2mpu_mpt_ops \<Rightarrow> mpt \<Rightarrow> u64 \<Rightarrow> u64 \<Rightarrow> u32 \<Rightarrow> mpt" where
  "mpt_idmap_prepare mops m first_byte last_byte prt = prepare_range mops m first_byte last_byte prt"

definition mpt_idmap_apply ::
    "hdr \<Rightarrow> s2mpu_mpt_ops \<Rightarrow> pkvm_iommu \<Rightarrow> mpt \<Rightarrow> u64 \<Rightarrow> u64 \<Rightarrow> trace \<Rightarrow> trace" where
  "mpt_idmap_apply c mops dev m first_byte last_byte tr =
     (let first_gb = (ucast (first_byte div SZ_1G) :: u32);
          last_gb = (ucast (last_byte div SZ_1G) :: u32);
          tr = tr @ apply_range mops (va dev) m first_gb last_gb
      in range_invalidation_init c dev first_byte last_byte tr)"

definition mpt_idmap_complete :: "hdr \<Rightarrow> env \<Rightarrow> pkvm_iommu \<Rightarrow> trace \<Rightarrow> trace option" where
  "mpt_idmap_complete c e dev tr = invalidation_barrier_complete c e dev tr"

definition s2mpu_host_stage2_idmap_prepare ::
    "hdr \<Rightarrow> s2mpu_mpt_ops \<Rightarrow> u64 \<Rightarrow> u64 \<Rightarrow> u64 \<Rightarrow> mpt \<times> trace \<Rightarrow> mpt \<times> trace" where
  "s2mpu_host_stage2_idmap_prepare c mops start end prt st =
     (case to_valid_range c start end of
        None \<Rightarrow> st
      | Some (start', end') \<Rightarrow>
          (mpt_idmap_prepare mops (fst st) start' (end' - 1) (prot_to_mpt c prt), snd st))"

definition s2mpu_host_stage2_idmap_apply ::
    "hdr \<Rightarrow> s2mpu_mpt_ops \<Rightarrow> pkvm_iommu \<Rightarrow> u64 \<Rightarrow> u64 \<Rightarrow> mpt \<times> trace \<Rightarrow> mpt \<times> trace" where
  "s2mpu_host_stage2_idmap_apply c mops dev start end st =
     (case to_valid_range c start end of
        None \<Rightarrow> st
      | Some (start', end') \<Rightarrow>
          (fst st, mpt_idmap_apply c mops dev (fst st) start' (end' - 1) (snd st)))"

definition s2mpu_host_stage2_idmap_complete ::
    "hdr \<Rightarrow> env \<Rightarrow> pkvm_iommu \<Rightarrow> trace \<Rightarrow> trace option" where
  "s2mpu_host_stage2_idmap_complete c e dev tr = mpt_idmap_complete c e dev tr"

subsection \<open>The host MMIO trap handler\<close>

definition host_mmio_reg_access_mask_v9 :: "hdr \<Rightarrow> u64 \<Rightarrow> bool \<Rightarrow> u32" where
  "host_mmio_reg_access_mask_v9 c off is_write =
     (let no_access = (0 :: u32);
          read_write = (- 1 :: u32);
          read_only = (if is_write then no_access else read_write);
          write_only = (if is_write then read_write else no_access)
      in
      if off = REG_NS_CTRL0 (regs c) then read_only AND V9_CTRL0_MASK (masks c)
      else if off = REG_NS_V9_CTRL_ERR_RESP_T_PER_VID_SET (regs9 c)
        then read_only AND ALL_VIDS_BITMAP (vals c)
      else if off = REG_NS_V9_CTRL_PROT_EN_PER_VID_SET (regs9 c)
        then read_only AND ALL_VIDS_BITMAP (vals c)
      else if off = REG_NS_V9_READ_STLB (regs9 c)
        then write_only AND (V9_READ_STLB_MASK_TYPEA (masks c) OR V9_READ_STLB_MASK_TYPEB (masks c))
      else if off = REG_NS_V9_READ_STLB_TPN (regs9 c)
        then read_only AND V9_READ_STLB_TPN_MASK (masks c)
      else if off = REG_NS_V9_READ_STLB_TAG_PPN (regs9 c)
        then read_only AND V9_READ_STLB_TAG_PPN_MASK (masks c)
      else if off = REG_NS_V9_READ_STLB_TAG_OTHERS (regs9 c)
        then read_only AND V9_READ_STLB_TAG_OTHERS_MASK (masks c)
      else if off = REG_NS_V9_READ_STLB_DATA (regs9 c) then read_only
      else if off = REG_NS_V9_MPTC_INFO (regs9 c)
        then read_only AND V9_READ_MPTC_INFO_MASK (masks c)
      else if off = REG_NS_V9_READ_MPTC (regs9 c)
        then write_only AND V9_READ_MPTC_MASK (masks c)
      else if off = REG_NS_V9_READ_MPTC_TAG_PPN (regs9 c)
        then read_only AND V9_READ_MPTC_TAG_PPN_MASK (masks c)
      else if off = REG_NS_V9_READ_MPTC_TAG_OTHERS (regs9 c)
        then read_only AND V9_READ_MPTC_TAG_OTHERS_MASK (masks c)
      else if off = REG_NS_V9_READ_MPTC_DATA (regs9 c) then read_only
      else if off = REG_NS_V9_PMMU_INFO (regs9 c)
        then read_only AND V9_READ_PMMU_INFO_MASK (masks c)
      else if off = REG_NS_V9_READ_PTLB (regs9 c)
        then write_only AND V9_READ_PTLB_MASK (masks c)
      else if off = REG_NS_V9_READ_PTLB_TAG (regs9 c)
        then read_only AND V9_READ_PTLB_TAG_MASK (masks c)
      else if off = REG_NS_V9_READ_PTLB_DATA_S1_EN_PPN_AP (regs9 c)
        then read_only AND V9_READ_PTLB_DATA_S1_ENABLE_PPN_AP_MASK (masks c)
      else if off = REG_NS_V9_READ_PTLB_DATA_S1_DIS_AP_LIST (regs9 c) then read_only
      else if off = REG_NS_V9_PMMU_INDICATOR (regs9 c)
        then read_only AND V9_READ_PMMU_INDICATOR_MASK (masks c)
      else if off = REG_NS_V9_SWALKER_INFO (regs9 c)
        then read_only AND V9_SWALKER_INFO_MASK (masks c)
      else if off \<ge> REG_NS_V9_PMMU_PTLB_INFO (regs9 c) 0
              \<and> off < REG_NS_V9_PMMU_PTLB_INFO (regs9 c) (V9_MAX_PTLB_NUM (regs9 c))
        then read_only AND V9_READ_PMMU_PTLB_INFO_MASK (masks c)
      else if off \<ge> REG_NS_V9_STLB_INFO (regs9 c) 0
              \<and> off < REG_NS_V9_STLB_INFO (regs9 c) (V9_MAX_STLB_NUM (regs9 c))
        then read_only AND V9_READ_SLTB_INFO_MASK (masks c)
      else no_access)"

definition host_mmio_reg_access_mask_v1_v2 :: "hdr \<Rightarrow> u64 \<Rightarrow> bool \<Rightarrow> u32" where
  "host_mmio_reg_access_mask_v1_v2 c off is_write =
     (let no_access = (0 :: u32);
          read_write = (- 1 :: u32);
          read_only = (if is_write then no_access else read_write);
          write_only = (if is_write then read_write else no_access)
      in
      if off = REG_NS_CTRL0 (regs c) then read_only AND CTRL0_MASK (masks c)
      else if off = REG_NS_CTRL1 (regs c) then read_only AND CTRL1_MASK (masks c)
      else if off = REG_NS_READ_MPTC (regs c) then write_only AND READ_MPTC_MASK (masks c)
      else if off = REG_NS_READ_MPTC_TAG_PPN (regs c)
        then read_only AND READ_MPTC_TAG_PPN_MASK (masks c)
      else if off = REG_NS_READ_MPTC_TAG_OTHERS (regs c)
        then read_only AND READ_MPTC_TAG_OTHERS_MASK (masks c)
      else if off = REG_NS_READ_MPTC_DATA (regs c) then read_only
      else no_access)"

fun reg_ops_host_mmio_reg_access_mask :: "s2mpu_reg_ops \<Rightarrow> hdr \<Rightarrow> u64 \<Rightarrow> bool \<Rightarrow> u32" where
  "reg_ops_host_mmio_reg_access_mask ops_v1_v2 = host_mmio_reg_access_mask_v1_v2"
| "reg_ops_host_mmio_reg_access_mask ops_v9 = host_mmio_reg_access_mask_v9"

text \<open>\<^verbatim>\<open>host_mmio_reg_access_mask\<close>. The local \<open>masked_off\<close> is a \<open>u32\<close>: the
  assignment keeps the low 32 bits of the 64-bit offset.\<close>

definition host_mmio_reg_access_mask :: "hdr \<Rightarrow> s2mpu_reg_ops \<Rightarrow> u64 \<Rightarrow> bool \<Rightarrow> u32" where
  "host_mmio_reg_access_mask c rops off is_write =
     (let no_access = (0 :: u32);
          read_write = (- 1 :: u32);
          read_only = (if is_write then no_access else read_write);
          write_only = (if is_write then read_write else no_access)
      in
      if off = REG_NS_CFG (regs c) then read_only AND CFG_MASK (masks c)
      else if off = REG_NS_INTERRUPT_CLEAR (regs c) then write_only AND ALL_VIDS_BITMAP (vals c)
      else if off = REG_NS_INFO (regs c) then read_only AND INFO_NUM_SET_MASK (masks c)
      else if off = REG_NS_FAULT_STATUS (regs c) then read_only AND ALL_VIDS_BITMAP (vals c)
      else if off \<ge> REG_NS_L1ENTRY_L2TABLE_ADDR (regs c) 0 0
              \<and> off < REG_NS_L1ENTRY_ATTR (regs c) (NR_VIDS (vals c)) 0
        then read_only
      else
        (let masked_off = (ucast (off AND NOT (REG_NS_FAULT_VID_MASK (regs c))) :: u32) in
         if ucast masked_off = REG_NS_FAULT_PA_LOW (regs c) 0
            \<or> ucast masked_off = REG_NS_FAULT_PA_HIGH (regs c) 0
            \<or> ucast masked_off = REG_NS_FAULT_INFO (regs c) 0
         then read_only
         else reg_ops_host_mmio_reg_access_mask rops c off is_write))"

text \<open>The host context: \<^verbatim>\<open>cpu_reg(host_ctxt, r)\<close> is the 64-bit register \<open>r\<close>.\<close>

type_synonym kvm_cpu_context = "nat \<Rightarrow> u64"

text \<open>The three locals that \<^verbatim>\<open>s2mpu_host_dabt_handler\<close> decodes from the syndrome:
  \<open>is_write\<close>, the access width \<open>len\<close> in bytes and the register index \<open>rd\<close>.\<close>

definition dabt_is_write :: "hdr \<Rightarrow> u32 \<Rightarrow> bool" where
  "dabt_is_write c esr = (esr AND ESR_ELx_WNR (vals c) \<noteq> 0)"

definition dabt_len :: "hdr \<Rightarrow> u32 \<Rightarrow> u32" where
  "dabt_len c esr =
     ucast (push_bit (unat (drop_bit (ESR_ELx_SAS_SHIFT (vals c)) (esr AND ESR_ELx_SAS (vals c))))
              (1 :: u64))"

definition dabt_rd :: "hdr \<Rightarrow> u32 \<Rightarrow> nat" where
  "dabt_rd c esr = unat (drop_bit (ESR_ELx_SRT_SHIFT (vals c)) (esr AND ESR_ELx_SRT_MASK (vals c)))"

definition s2mpu_host_dabt_handler ::
    "hdr \<Rightarrow> env \<Rightarrow> s2mpu_reg_ops \<Rightarrow> pkvm_iommu \<Rightarrow> kvm_cpu_context \<Rightarrow> u32 \<Rightarrow> u64 \<Rightarrow> trace
       \<Rightarrow> bool \<times> kvm_cpu_context \<times> trace" where
  "s2mpu_host_dabt_handler c e rops dev host_ctxt esr off tr =
     (let is_write = dabt_is_write c esr;
          len = dabt_len c esr;
          rd = dabt_rd c esr
      in
      if len \<noteq> 4 \<or> off AND (4 - 1) \<noteq> 0 then (False, host_ctxt, tr)
      else
        (let msk = host_mmio_reg_access_mask c rops off is_write in
         if msk = 0 then (False, host_ctxt, tr)
         else if is_write then
           (True, host_ctxt, writel (ucast (host_ctxt rd AND ucast msk)) (va dev + off) tr)
         else
           (case readl e (va dev + off) tr of (v, tr') \<Rightarrow>
              (True, host_ctxt(rd := ucast (v AND msk)), tr'))))"

subsection \<open>Driver initialisation\<close>

text \<open>The globals of the driver. A \<^verbatim>\<open>NULL\<close> vtable pointer is \<open>None\<close>.\<close>

record globals =
  mpt_ops :: "s2mpu_mpt_ops option"
  reg_ops :: "s2mpu_reg_ops option"
  host_mpt :: mpt




text \<open>\<^verbatim>\<open>memset(&host_mpt, 0, sizeof(host_mpt))\<close>.\<close>

definition zero_mpt :: "hdr \<Rightarrow> mpt" where
  "zero_mpt c = \<lparr>mpt_version = 0,
                 fmpt = replicate (NR_GIGABYTES (vals c)) \<lparr>smpt = 0, gran_1g = False, prot = 0\<rparr>\<rparr>"



subsection \<open>A sample platform\<close>

text \<open>One choice of values for the header constants, used to evaluate the model on
  concrete inputs: pairwise distinct register offsets, single-bit flags, four gigabytes
  of physical address space, 4 KiB pages.\<close>

definition sample_regs :: s2mpu_regs where
  "sample_regs = \<lparr>
     REG_NS_CTRL0 = 0x0,
     REG_NS_CTRL1 = 0x4,
     REG_NS_CFG = 0x10,
     REG_NS_INTERRUPT_ENABLE_PER_VID_SET = 0x20,
     REG_NS_INTERRUPT_CLEAR = 0x2c,
     REG_NS_VERSION = 0x60,
     REG_NS_INFO = 0x64,
     REG_NS_STATUS = 0x68,
     REG_NS_NUM_CONTEXT = 0x100,
     REG_NS_CONTEXT_CFG_VALID_VID = 0x104,
     REG_NS_ALL_INVALIDATION = 0x1000,
     REG_NS_RANGE_INVALIDATION = 0x1020,
     REG_NS_RANGE_INVALIDATION_START_PPN = 0x1024,
     REG_NS_RANGE_INVALIDATION_END_PPN = 0x1028,
     REG_NS_FAULT_STATUS = 0x2000,
     REG_NS_FAULT_PA_LOW = (\<lambda>vid. 0x2004 + of_nat vid * 0x20),
     REG_NS_FAULT_PA_HIGH = (\<lambda>vid. 0x2008 + of_nat vid * 0x20),
     REG_NS_FAULT_INFO = (\<lambda>vid. 0x2010 + of_nat vid * 0x20),
     REG_NS_FAULT_VID_MASK = 0xE0,
     REG_NS_READ_MPTC = 0x3000,
     REG_NS_READ_MPTC_TAG_PPN = 0x3004,
     REG_NS_READ_MPTC_TAG_OTHERS = 0x3008,
     REG_NS_READ_MPTC_DATA = 0x3010,
     REG_NS_L1ENTRY_L2TABLE_ADDR = (\<lambda>vid gb. 0x4000 + of_nat vid * 0x200 + of_nat gb * 0x8),
     REG_NS_L1ENTRY_ATTR = (\<lambda>vid gb. 0x4004 + of_nat vid * 0x200 + of_nat gb * 0x8),
     REG_NS_SYNC_CMD = 0x0,
     REG_NS_SYNC_COMP = 0x4 \<rparr>"

definition sample_regs_v9 :: s2mpu_regs_v9 where
  "sample_regs_v9 = \<lparr>
     REG_NS_V9_CTRL_ERR_RESP_T_PER_VID_SET = 0x30,
     REG_NS_V9_CTRL_PROT_EN_PER_VID_SET = 0x50,
     REG_NS_V9_CFG_MPTW_ATTRIBUTE = 0x14,
     REG_NS_V9_READ_STLB = 0x3100,
     REG_NS_V9_READ_STLB_TPN = 0x3104,
     REG_NS_V9_READ_STLB_TAG_PPN = 0x3108,
     REG_NS_V9_READ_STLB_TAG_OTHERS = 0x310c,
     REG_NS_V9_READ_STLB_DATA = 0x3110,
     REG_NS_V9_MPTC_INFO = 0x3c00,
     REG_NS_V9_READ_MPTC = 0x3c10,
     REG_NS_V9_READ_MPTC_TAG_PPN = 0x3c14,
     REG_NS_V9_READ_MPTC_TAG_OTHERS = 0x3c18,
     REG_NS_V9_READ_MPTC_DATA = 0x3c20,
     REG_NS_V9_PMMU_INFO = 0x3d00,
     REG_NS_V9_READ_PTLB = 0x3d10,
     REG_NS_V9_READ_PTLB_TAG = 0x3d14,
     REG_NS_V9_READ_PTLB_DATA_S1_EN_PPN_AP = 0x3d20,
     REG_NS_V9_READ_PTLB_DATA_S1_DIS_AP_LIST = 0x3d24,
     REG_NS_V9_PMMU_INDICATOR = 0x3d2c,
     REG_NS_V9_SWALKER_INFO = 0x3e00,
     REG_NS_V9_PMMU_PTLB_INFO = (\<lambda>n. 0x3e10 + of_nat n * 0x4),
     REG_NS_V9_STLB_INFO = (\<lambda>n. 0x3f00 + of_nat n * 0x4),
     V9_MAX_PTLB_NUM = 0x10,
     V9_MAX_STLB_NUM = 0x10 \<rparr>"

definition sample_masks :: s2mpu_masks where
  "sample_masks = \<lparr>
     CTRL0_MASK = 0xf,
     CTRL1_MASK = 0x1,
     CFG_MASK = 0xffff0007,
     INFO_NUM_SET_MASK = 0xffff,
     READ_MPTC_MASK = 0xffff000f,
     READ_MPTC_TAG_PPN_MASK = 0xffffff,
     READ_MPTC_TAG_OTHERS_MASK = 0x1f1f,
     V9_CTRL0_MASK = 0x1,
     V9_READ_STLB_MASK_TYPEA = 0xff0f,
     V9_READ_STLB_MASK_TYPEB = 0xff0000,
     V9_READ_STLB_TPN_MASK = 0xffffff,
     V9_READ_STLB_TAG_PPN_MASK = 0xffffff,
     V9_READ_STLB_TAG_OTHERS_MASK = 0x1fff,
     V9_READ_MPTC_INFO_MASK = 0xffff,
     V9_READ_MPTC_MASK = 0xffff000f,
     V9_READ_MPTC_TAG_PPN_MASK = 0xffffff,
     V9_READ_MPTC_TAG_OTHERS_MASK = 0x1f1f,
     V9_READ_PMMU_INFO_MASK = 0xffff,
     V9_READ_PTLB_MASK = 0xffffff,
     V9_READ_PTLB_TAG_MASK = 0xffffff,
     V9_READ_PTLB_DATA_S1_ENABLE_PPN_AP_MASK = 0xfffffff,
     V9_READ_PMMU_INDICATOR_MASK = 0xffff,
     V9_SWALKER_INFO_MASK = 0xffff,
     V9_READ_PMMU_PTLB_INFO_MASK = 0xffffff,
     V9_READ_SLTB_INFO_MASK = 0xffffff \<rparr>"

definition sample_vals :: s2mpu_vals where
  "sample_vals = \<lparr>
     ALL_VIDS_BITMAP = 0xff,
     NR_VIDS = 8,
     VERSION_CHECK_MASK = 0xffff0000,
     S2MPU_VERSION_1 = 0x11000000,
     S2MPU_VERSION_2 = 0x20000000,
     S2MPU_VERSION_9 = 0x90000000,
     NUM_CONTEXT_MASK = 0xf,
     CONTEXT_CFG_VALID_VID_CTX_VID = (\<lambda>ctx vid. push_bit (4 * ctx) (ucast vid AND 7)),
     CONTEXT_CFG_VALID_VID_CTX_VALID = (\<lambda>ctx. push_bit (4 * ctx + 3) 1),
     CTRL0_ENABLE = 0x1,
     CTRL0_INTERRUPT_ENABLE = 0x2,
     CTRL0_FAULT_RESP_TYPE_DECERR = 0x8,
     CTRL0_FAULT_RESP_TYPE_SLVERR = 0x4,
     SYNC_CMD_SYNC = 0x1,
     SYNC_COMP_COMPLETE = 0x1,
     STATUS_BUSY = 0x1,
     STATUS_ON_INVALIDATING = 0x2,
     INVALIDATION_INVALIDATE = 0x1,
     RANGE_INVALIDATION_PPN_SHIFT = 12,
     NR_GIGABYTES = 4,
     SMPT_GRAN = 0x1000,
     PAGE_SIZE = 0x1000,
     PAGE_SHIFT = 12,
     MPT_PROT_NONE = 0,
     MPT_PROT_R = 0x1,
     MPT_PROT_W = 0x2,
     MPT_PROT_RW = 0x3,
     KVM_PGTABLE_PROT_R = 0x4,
     KVM_PGTABLE_PROT_W = 0x2,
     ESR_ELx_WNR = 0x40,
     ESR_ELx_SAS = 0xc00000,
     ESR_ELx_SAS_SHIFT = 22,
     ESR_ELx_SRT_MASK = 0x1f0000,
     ESR_ELx_SRT_SHIFT = 16 \<rparr>"

definition sample_hdr :: hdr where
  "sample_hdr = \<lparr>regs = sample_regs, regs9 = sample_regs_v9, masks = sample_masks,
                  vals = sample_vals\<rparr>"

text \<open>A page-table encoder that writes one L1 entry register on initialisation, and an
  environment whose device registers read as the function \<open>rd\<close> of the address.\<close>

definition sample_mpt_ops :: s2mpu_mpt_ops where
  "sample_mpt_ops = \<lparr>
     smpt_size = 0x10000,
     init_with_prot = (\<lambda>base prt. [Writel (base + 0x4004) prt]),
     init_with_mpt = (\<lambda>base m. [Writel (base + 0x4004) 3]),
     apply_range = (\<lambda>base m first_gb last_gb. [Writel (base + 0x4004) 3]),
     prepare_range = (\<lambda>m first_byte last_byte prt. m\<lparr>fmpt := map (\<lambda>f. f\<lparr>prot := prt\<rparr>) (fmpt m)\<rparr>) \<rparr>"

definition sample_env :: "(u64 \<Rightarrow> u32) \<Rightarrow> (u64 \<Rightarrow> int) \<Rightarrow> env" where
  "sample_env rd don = \<lparr>
     readl_relaxed = (\<lambda>tr a. rd a),
     pkvm_host_donate_hyp = (\<lambda>tr pfn n. don pfn),
     pkvm_hyp_donate_host = (\<lambda>tr pfn n. 0),
     kern_hyp_va = (\<lambda>p. p),
     hyp_pa = (\<lambda>p. p),
     s2mpu_get_mpt_ops = (\<lambda>v. Some sample_mpt_ops) \<rparr>"

subsection \<open>Notions used to state the properties\<close>

text \<open>\<open>erase\<close> forgets the value that a load returned. \<open>complete_read c sync ev\<close>: the event
  is a load of the \<^verbatim>\<open>SYNC_COMP\<close> register of the child at \<open>sync\<close> that has the
  \<^verbatim>\<open>COMPLETE\<close> bit. \<open>slow_attempt c sync t\<close>: one \<^verbatim>\<open>SYNC_CMD\<close> store followed by
  \<open>t\<close> loads of \<^verbatim>\<open>SYNC_COMP\<close>. \<open>slow_pattern c sync n t\<close>: \<open>n\<close> attempts, the
  first with \<open>t\<close> loads, each next one with three times as many.\<close>

fun erase :: "event \<Rightarrow> event" where
  "erase (Readl a v) = Readl a 0"
| "erase ev = ev"

definition complete_read :: "hdr \<Rightarrow> u64 \<Rightarrow> event \<Rightarrow> bool" where
  "complete_read c sync ev =
     (case ev of
        Readl a v \<Rightarrow> a = sync + REG_NS_SYNC_COMP (regs c)
                      \<and> v AND SYNC_COMP_COMPLETE (vals c) = SYNC_COMP_COMPLETE (vals c)
      | _ \<Rightarrow> False)"

definition slow_attempt :: "hdr \<Rightarrow> u64 \<Rightarrow> nat \<Rightarrow> event list" where
  "slow_attempt c sync t =
     Writel (sync + REG_NS_SYNC_CMD (regs c)) (SYNC_CMD_SYNC (vals c))
       # replicate t (Readl (sync + REG_NS_SYNC_COMP (regs c)) 0)"

fun slow_pattern :: "hdr \<Rightarrow> u64 \<Rightarrow> nat \<Rightarrow> nat \<Rightarrow> event list" where
  "slow_pattern c sync 0 t = []"
| "slow_pattern c sync (Suc n) t =
     slow_attempt c sync t @ slow_pattern c sync n (t * SYNC_TIMEOUT_MULTIPLIER)"

text \<open>The offsets that the trap handler lets the host store to: \<^verbatim>\<open>INTERRUPT_CLEAR\<close>
  and the selector registers of the debug read-out.\<close>

fun host_writable :: "hdr \<Rightarrow> s2mpu_reg_ops \<Rightarrow> u64 list" where
  "host_writable c ops_v1_v2 = [REG_NS_INTERRUPT_CLEAR (regs c), REG_NS_READ_MPTC (regs c)]"
| "host_writable c ops_v9 =
     [REG_NS_INTERRUPT_CLEAR (regs c), REG_NS_V9_READ_STLB (regs9 c),
      REG_NS_V9_READ_MPTC (regs9 c), REG_NS_V9_READ_PTLB (regs9 c)]"

text \<open>The offsets that occur in the mask tables: the \<^verbatim>\<open>case\<close> labels and the ranges
  that the three mask functions test.\<close>

definition in_common_table :: "hdr \<Rightarrow> u64 \<Rightarrow> bool" where
  "in_common_table c off =
     (off \<in> set [REG_NS_CFG (regs c), REG_NS_INTERRUPT_CLEAR (regs c), REG_NS_INFO (regs c),
                  REG_NS_FAULT_STATUS (regs c)]
      \<or> (off \<ge> REG_NS_L1ENTRY_L2TABLE_ADDR (regs c) 0 0
           \<and> off < REG_NS_L1ENTRY_ATTR (regs c) (NR_VIDS (vals c)) 0)
      \<or> ucast (ucast (off AND NOT (REG_NS_FAULT_VID_MASK (regs c))) :: u32)
           \<in> set [REG_NS_FAULT_PA_LOW (regs c) 0, REG_NS_FAULT_PA_HIGH (regs c) 0,
                    REG_NS_FAULT_INFO (regs c) 0])"

fun in_version_table :: "hdr \<Rightarrow> s2mpu_reg_ops \<Rightarrow> u64 \<Rightarrow> bool" where
  "in_version_table c ops_v1_v2 off =
     (off \<in> set [REG_NS_CTRL0 (regs c), REG_NS_CTRL1 (regs c), REG_NS_READ_MPTC (regs c),
                  REG_NS_READ_MPTC_TAG_PPN (regs c), REG_NS_READ_MPTC_TAG_OTHERS (regs c),
                  REG_NS_READ_MPTC_DATA (regs c)])"
| "in_version_table c ops_v9 off =
     (off \<in> set [REG_NS_CTRL0 (regs c), REG_NS_V9_CTRL_ERR_RESP_T_PER_VID_SET (regs9 c),
                  REG_NS_V9_CTRL_PROT_EN_PER_VID_SET (regs9 c), REG_NS_V9_READ_STLB (regs9 c),
                  REG_NS_V9_READ_STLB_TPN (regs9 c), REG_NS_V9_READ_STLB_TAG_PPN (regs9 c),
                  REG_NS_V9_READ_STLB_TAG_OTHERS (regs9 c), REG_NS_V9_READ_STLB_DATA (regs9 c),
                  REG_NS_V9_MPTC_INFO (regs9 c), REG_NS_V9_READ_MPTC (regs9 c),
                  REG_NS_V9_READ_MPTC_TAG_PPN (regs9 c), REG_NS_V9_READ_MPTC_TAG_OTHERS (regs9 c),
                  REG_NS_V9_READ_MPTC_DATA (regs9 c), REG_NS_V9_PMMU_INFO (regs9 c),
                  REG_NS_V9_READ_PTLB (regs9 c), REG_NS_V9_READ_PTLB_TAG (regs9 c),
                  REG_NS_V9_READ_PTLB_DATA_S1_EN_PPN_AP (regs9 c),
                  REG_NS_V9_READ_PTLB_DATA_S1_DIS_AP_LIST (regs9 c),
                  REG_NS_V9_PMMU_INDICATOR (regs9 c), REG_NS_V9_SWALKER_INFO (regs9 c)]
      \<or> (off \<ge> REG_NS_V9_PMMU_PTLB_INFO (regs9 c) 0
           \<and> off < REG_NS_V9_PMMU_PTLB_INFO (regs9 c) (V9_MAX_PTLB_NUM (regs9 c)))
      \<or> (off \<ge> REG_NS_V9_STLB_INFO (regs9 c) 0
           \<and> off < REG_NS_V9_STLB_INFO (regs9 c) (V9_MAX_STLB_NUM (regs9 c))))"

definition in_mask_tables :: "hdr \<Rightarrow> s2mpu_reg_ops \<Rightarrow> u64 \<Rightarrow> bool" where
  "in_mask_tables c rops off = (in_common_table c off \<or> in_version_table c rops off)"

text \<open>The registers that hold the protection state: control, configuration,
  invalidation, and the L1 entries of every VID and gigabyte.\<close>

definition protected_regs :: "hdr \<Rightarrow> u64 list" where
  "protected_regs c =
     [REG_NS_CTRL0 (regs c), REG_NS_CTRL1 (regs c), REG_NS_CFG (regs c),
      REG_NS_ALL_INVALIDATION (regs c), REG_NS_RANGE_INVALIDATION (regs c),
      REG_NS_RANGE_INVALIDATION_START_PPN (regs c), REG_NS_RANGE_INVALIDATION_END_PPN (regs c)]
     @ concat (map (\<lambda>vid. concat (map (\<lambda>gb. [REG_NS_L1ENTRY_L2TABLE_ADDR (regs c) vid gb,
                                                REG_NS_L1ENTRY_ATTR (regs c) vid gb])
                                       [0..<NR_GIGABYTES (vals c)]))
                 [0..<NR_VIDS (vals c)])"

text \<open>Sample inputs: a register file in which every register reads as \<open>v\<close>; a
  donation layer that accepts every page; a device at \<open>0x10000\<close> with a cached version
  and a list of children.\<close>

definition all_read :: "u32 \<Rightarrow> u64 \<Rightarrow> u32" where
  "all_read v a = v"

definition donate_ok :: "u64 \<Rightarrow> int" where
  "donate_ok pfn = 0"

definition sample_dev :: "u32 \<Rightarrow> u32 \<Rightarrow> u64 list \<Rightarrow> pkvm_iommu" where
  "sample_dev ver cfg kids =
     \<lparr>va = 0x10000, dev_size = 0x10000,
      data = \<lparr>version = ver, context_cfg_valid_vid = cfg\<rparr>, children = kids\<rparr>"

text \<open>A device whose \<^verbatim>\<open>STATUS\<close> register (at \<open>0x10068\<close>) is busy invalidating on
  the first access and idle afterwards.\<close>

definition env_busy_once :: env where
  "env_busy_once = (sample_env (all_read 0) donate_ok)
     \<lparr>readl_relaxed := (\<lambda>tr a. if a = 0x10068 \<and> tr = [] then 3 else 0)\<rparr>"

text \<open>\<open>polls e a n tr\<close>: the trace after \<open>n\<close> more loads from \<open>a\<close>. \<open>is_load\<close>
  tells loads from the other events.\<close>

fun polls :: "env \<Rightarrow> u64 \<Rightarrow> nat \<Rightarrow> trace \<Rightarrow> trace" where
  "polls e a 0 tr = tr"
| "polls e a (Suc n) tr = polls e a n (snd (readl e a tr))"

fun is_load :: "event \<Rightarrow> bool" where
  "is_load (Readl a v) = True"
| "is_load ev = False"

text \<open>The last stores of a bring-up, as \<^verbatim>\<open>set_control_regs\<close> of the version makes them:
  on v1/v2 the store to \<^verbatim>\<open>CTRL0\<close> with the given value; on v9 the store that enables
  protection for all VIDs, followed by the store to \<^verbatim>\<open>V9_CFG_MPTW_ATTRIBUTE\<close>.\<close>

fun enable_tail :: "hdr \<Rightarrow> s2mpu_reg_ops \<Rightarrow> u64 \<Rightarrow> u32 \<Rightarrow> event list" where
  "enable_tail c ops_v1_v2 base ctrl0 = [Writel (base + REG_NS_CTRL0 (regs c)) ctrl0]"
| "enable_tail c ops_v9 base ctrl0 =
     [Writel (base + REG_NS_V9_CTRL_PROT_EN_PER_VID_SET (regs9 c)) (ALL_VIDS_BITMAP (vals c)),
      Writel (base + REG_NS_V9_CFG_MPTW_ATTRIBUTE (regs9 c)) 0]"

text \<open>A register file for bring-up: \<^verbatim>\<open>VERSION\<close> (at \<open>0x10060\<close>) reads as \<open>ver\<close>,
  \<^verbatim>\<open>NUM_CONTEXT\<close> (at \<open>0x10100\<close>) as \<open>n\<close>, every other register as \<open>0\<close>.\<close>

definition sample_rd :: "u32 \<Rightarrow> u32 \<Rightarrow> u64 \<Rightarrow> u32" where
  "sample_rd ver n a = (if a = 0x10060 then ver else if a = 0x10100 then n else 0)"

text \<open>\<open>set_bits w\<close>: the indices of the bits set in \<open>w\<close>, in ascending order.\<close>

definition set_bits :: "u32 \<Rightarrow> nat list" where
  "set_bits w = filter (bit w) [0..<32]"

text \<open>A device whose \<^verbatim>\<open>NUM_CONTEXT\<close> register reads \<open>0\<close> on the first access of the
  history and \<open>8\<close> afterwards.\<close>

definition env_ctx_late :: env where
  "env_ctx_late = (sample_env (all_read 0) donate_ok)
     \<lparr>readl_relaxed := (\<lambda>tr a. if tr = [] then 0 else 8)\<rparr>"








text \<open>The stores of \<^verbatim>\<open>set_control_regs\<close> of the version, in program order, for a device
  after its version init.\<close>

fun control_stores :: "hdr \<Rightarrow> s2mpu_reg_ops \<Rightarrow> pkvm_iommu \<Rightarrow> event list" where
  "control_stores c ops_v1_v2 dev =
     [Writel (va dev + REG_NS_INTERRUPT_ENABLE_PER_VID_SET (regs c)) (ALL_VIDS_BITMAP (vals c)),
      Writel (va dev + REG_NS_CFG (regs c)) 0,
      Writel (va dev + REG_NS_CTRL1 (regs c)) 0,
      Writel (va dev + REG_NS_CTRL0 (regs c))
        (CTRL0_ENABLE (vals c) OR CTRL0_INTERRUPT_ENABLE (vals c)
         OR (if is_version c dev (S2MPU_VERSION_2 (vals c))
             then CTRL0_FAULT_RESP_TYPE_DECERR (vals c)
             else CTRL0_FAULT_RESP_TYPE_SLVERR (vals c)))]"
| "control_stores c ops_v9 dev =
     [Writel (va dev + REG_NS_V9_CTRL_ERR_RESP_T_PER_VID_SET (regs9 c)) (ALL_VIDS_BITMAP (vals c)),
      Writel (va dev + REG_NS_INTERRUPT_ENABLE_PER_VID_SET (regs c)) (ALL_VIDS_BITMAP (vals c)),
      Writel (va dev + REG_NS_CTRL0 (regs c)) 0,
      Writel (va dev + REG_NS_V9_CTRL_PROT_EN_PER_VID_SET (regs9 c)) (ALL_VIDS_BITMAP (vals c)),
      Writel (va dev + REG_NS_V9_CFG_MPTW_ATTRIBUTE (regs9 c)) 0]"

text \<open>The trace of a v2/v9 bring-up up to the point where the wait for the invalidation
  starts: the trace before, the loads \<open>pre\<close> of the version init, the store of the context
  configuration \<open>cfg\<close>, the events \<open>evs\<close> of the page-table encoder, the store to
  \<^verbatim>\<open>ALL_INVALIDATION\<close>, and one \<^verbatim>\<open>SYNC_CMD\<close> store per child.\<close>

definition bringup_head ::
    "hdr \<Rightarrow> pkvm_iommu \<Rightarrow> trace \<Rightarrow> event list \<Rightarrow> u32 \<Rightarrow> event list \<Rightarrow> trace" where
  "bringup_head c dev tr pre cfg evs =
     tr @ pre @ [Writel (va dev + REG_NS_CONTEXT_CFG_VALID_VID (regs c)) cfg] @ evs
       @ [Writel (va dev + REG_NS_ALL_INVALIDATION (regs c)) (INVALIDATION_INVALIDATE (vals c))]
       @ map (\<lambda>sync. Writel (sync + REG_NS_SYNC_CMD (regs c)) (SYNC_CMD_SYNC (vals c)))
           (children dev)"

text \<open>A register file like \<open>sample_rd\<close> in which, in addition, the \<^verbatim>\<open>SYNC_COMP\<close>
  register of a child at \<open>0x20000\<close> reads as complete.\<close>

definition sample_rd_child :: "u32 \<Rightarrow> u32 \<Rightarrow> u64 \<Rightarrow> u32" where
  "sample_rd_child ver n a = (if a = 0x20004 then 1 else sample_rd ver n a)"



section \<open>Properties\<close>

subsection \<open>The slow path of the invalidation barrier\<close>

declare wait_until_loop.simps [simp del]
declare invalidation_barrier_slow_loop.simps [simp del]

lemma wait_until_loop_reads:
  "(\<exists>pre v. (\<forall>u \<in> set pre. u AND m \<noteq> m) \<and> v AND m = m \<and> length pre < n - i
       \<and> v \<in> range (\<lambda>h. readl_relaxed e h a)
       \<and> wait_until_loop e a m n i tr = (True, tr @ map (Readl a) (pre @ [v])))
   \<or> (\<exists>pre. (\<forall>u \<in> set pre. u AND m \<noteq> m) \<and> length pre = n - i
       \<and> wait_until_loop e a m n i tr = (False, tr @ map (Readl a) pre))"
proof (induction e a m n i tr rule: wait_until_loop.induct)
  case (1 e a m n i tr)
  show ?case
  proof (cases "i < n")
    case False
    then show ?thesis
      by (simp add: wait_until_loop.simps [of e a m n i tr])
  next
    case True
    define v where "v = readl_relaxed e tr a"
    define tr' where "tr' = tr @ [Readl a v]"
    have rd: "readl e a tr = (v, tr')"
      by (simp add: readl_def v_def tr'_def Let_def)
    show ?thesis
    proof (cases "v AND m = m")
      case c: True
      have "wait_until_loop e a m n i tr = (True, tr @ map (Readl a) ([] @ [v]))"
        using True c rd by (simp add: wait_until_loop.simps [of e a m n i tr] tr'_def)
      then show ?thesis
        using True c by (intro disjI1 exI [of _ "[]"] exI [of _ v]) (simp add: v_def)
    next
      case c: False
      have eq: "wait_until_loop e a m n i tr = wait_until_loop e a m n (i + 1) tr'"
        using True c rd by (simp add: wait_until_loop.simps [of e a m n i tr])
      from "1.IH" [OF True rd [symmetric] c]
      consider (ok) pre w where "\<forall>u \<in> set pre. u AND m \<noteq> m" "w AND m = m"
          "length pre < n - (i + 1)" "w \<in> range (\<lambda>h. readl_relaxed e h a)"
          "wait_until_loop e a m n (i + 1) tr' = (True, tr' @ map (Readl a) (pre @ [w]))"
        | (fail) pre where "\<forall>u \<in> set pre. u AND m \<noteq> m" "length pre = n - (i + 1)"
          "wait_until_loop e a m n (i + 1) tr' = (False, tr' @ map (Readl a) pre)"
        by blast
      then show ?thesis
      proof cases
        case ok
        then show ?thesis
          using c True unfolding eq
          by (intro disjI1 exI [of _ "v # pre"] exI [of _ w]) (auto simp: tr'_def)
      next
        case fail
        then show ?thesis
          using c True unfolding eq
          by (intro disjI2 exI [of _ "v # pre"]) (auto simp: tr'_def)
      qed
    qed
  qed
qed

lemma wait_until_reads:
  obtains (ok) pre v where "\<forall>u \<in> set pre. u AND m \<noteq> m" "v AND m = m" "length pre < n"
      "v \<in> range (\<lambda>h. readl_relaxed e h a)"
      "wait_until e a m n tr = (True, tr @ map (Readl a) (pre @ [v]))"
    | (fail) pre where "\<forall>u \<in> set pre. u AND m \<noteq> m" "length pre = n"
      "wait_until e a m n tr = (False, tr @ map (Readl a) pre)"
  using wait_until_loop_reads [of m n 0 e a tr] unfolding wait_until_def by auto

lemma map_erase_reads: "map (erase \<circ> Readl a) vs = replicate (length vs) (Readl a 0)"
  by (induction vs) auto

lemma slow_loop_trace:
  "\<exists>new. invalidation_barrier_slow_loop c e sync i t tr = tr @ new
     \<and> (\<exists>rest. map erase new @ rest = slow_pattern c sync (SYNC_MAX_RETRIES - i) t)
     \<and> (\<forall>ev \<in> set (butlast new). \<not> complete_read c sync ev)
     \<and> ((\<forall>h. readl_relaxed e h (sync + REG_NS_SYNC_COMP (regs c)) AND SYNC_COMP_COMPLETE (vals c)
                 \<noteq> SYNC_COMP_COMPLETE (vals c))
          \<longrightarrow> map erase new = slow_pattern c sync (SYNC_MAX_RETRIES - i) t)"
proof (induction c e sync i t tr rule: invalidation_barrier_slow_loop.induct)
  case (1 c e sync i t tr)
  define comp where "comp = sync + REG_NS_SYNC_COMP (regs c)"
  define C where "C = SYNC_COMP_COMPLETE (vals c)"
  define W where "W = Writel (sync + REG_NS_SYNC_CMD (regs c)) (SYNC_CMD_SYNC (vals c))"
  define tr0 where "tr0 = sync_cmd_start c sync tr"
  have tr0: "tr0 = tr @ [W]"
    by (simp add: tr0_def sync_cmd_start_def writel_def W_def)
  have notW: "\<not> complete_read c sync W"
    by (simp add: complete_read_def W_def)
  have cr: "complete_read c sync (Readl comp v) \<longleftrightarrow> v AND C = C" for v
    by (simp add: complete_read_def comp_def C_def)
  show ?case
  proof (cases "i < SYNC_MAX_RETRIES")
    case False
    then show ?thesis
      by (simp add: invalidation_barrier_slow_loop.simps [of c e sync i t tr])
  next
    case True
    then have suc: "SYNC_MAX_RETRIES - i = Suc (SYNC_MAX_RETRIES - (i + 1))"
      by simp
    have pat: "slow_pattern c sync (SYNC_MAX_RETRIES - i) t =
        W # replicate t (Readl comp 0)
          @ slow_pattern c sync (SYNC_MAX_RETRIES - (i + 1)) (t * SYNC_TIMEOUT_MULTIPLIER)"
      unfolding suc by (simp add: slow_attempt_def W_def comp_def)
    obtain ok tr1 pre where w: "wait_until e comp C t tr0 = (ok, tr1)"
      and pre: "\<forall>v \<in> set pre. v AND C \<noteq> C"
      and res: "if ok then \<exists>v. v AND C = C \<and> length pre < t
                    \<and> v \<in> range (\<lambda>h. readl_relaxed e h comp)
                    \<and> tr1 = tr0 @ map (Readl comp) (pre @ [v])
                else length pre = t \<and> tr1 = tr0 @ map (Readl comp) pre"
      by (rule wait_until_reads [of C t e comp tr0]) auto
    have pre_nc: "\<forall>ev \<in> set (map (Readl comp) pre). \<not> complete_read c sync ev"
      using pre by (auto simp: cr)
    show ?thesis
    proof (cases ok)
      case ok: True
      with res obtain v where v: "v AND C = C" "length pre < t"
        "tr1 = tr0 @ map (Readl comp) (pre @ [v])" "v \<in> range (\<lambda>h. readl_relaxed e h comp)"
        by auto
      have eq: "invalidation_barrier_slow_loop c e sync i t tr = tr1"
        using True w ok
        by (simp add: invalidation_barrier_slow_loop.simps [of c e sync i t tr]
              comp_def C_def tr0_def)
      define new where "new = W # map (Readl comp) pre @ [Readl comp v]"
      have r: "invalidation_barrier_slow_loop c e sync i t tr = tr @ new"
        by (simp add: eq v tr0 new_def)
      have bl: "butlast new = W # map (Readl comp) pre"
        by (simp add: new_def butlast_append)
      have p1: "\<forall>ev \<in> set (butlast new). \<not> complete_read c sync ev"
        unfolding bl using notW pre_nc by simp
      have "map erase new = W # replicate (Suc (length pre)) (Readl comp 0)"
        by (simp add: new_def W_def map_erase_reads replicate_append_same)
      moreover have "replicate t (Readl comp 0)
          = replicate (Suc (length pre)) (Readl comp 0)
              @ replicate (t - Suc (length pre)) (Readl comp 0)"
        using v(2) by (simp add: replicate_add [symmetric] del: replicate_Suc)
      ultimately have p2: "\<exists>rest. map erase new @ rest
          = slow_pattern c sync (SYNC_MAX_RETRIES - i) t"
        unfolding pat by simp
      have p3: "\<not> (\<forall>h. readl_relaxed e h comp AND C \<noteq> C)"
        using v(1) v(4) by auto
      show ?thesis
        using r p1 p2 p3 unfolding comp_def C_def by blast
    next
      case ok: False
      with res have len: "length pre = t" and tr1: "tr1 = tr0 @ map (Readl comp) pre"
        by auto
      have eq: "invalidation_barrier_slow_loop c e sync i t tr =
          invalidation_barrier_slow_loop c e sync (i + 1) (t * SYNC_TIMEOUT_MULTIPLIER) tr1"
        using True w ok
        by (simp add: invalidation_barrier_slow_loop.simps [of c e sync i t tr]
              comp_def C_def tr0_def)
      have w': "(ok, tr1) = wait_until e (sync + REG_NS_SYNC_COMP (regs c))
                  (SYNC_COMP_COMPLETE (vals c)) t (sync_cmd_start c sync tr)"
        using w by (simp add: comp_def C_def tr0_def)
      from "1.IH" [OF True w' ok, folded comp_def C_def]
      obtain new' where n1: "invalidation_barrier_slow_loop c e sync (i + 1)
             (t * SYNC_TIMEOUT_MULTIPLIER) tr1 = tr1 @ new'"
        and n2: "\<exists>rest. map erase new' @ rest
             = slow_pattern c sync (SYNC_MAX_RETRIES - (i + 1)) (t * SYNC_TIMEOUT_MULTIPLIER)"
        and n3: "\<forall>ev \<in> set (butlast new'). \<not> complete_read c sync ev"
        and n4: "(\<forall>h. readl_relaxed e h comp AND C \<noteq> C)
             \<longrightarrow> map erase new'
                 = slow_pattern c sync (SYNC_MAX_RETRIES - (i + 1)) (t * SYNC_TIMEOUT_MULTIPLIER)"
        by blast
      define new where "new = W # map (Readl comp) pre @ new'"
      have r: "invalidation_barrier_slow_loop c e sync i t tr = tr @ new"
        unfolding eq n1 unfolding tr1 tr0 new_def by simp
      have me: "map erase new = W # replicate t (Readl comp 0) @ map erase new'"
        by (simp add: new_def W_def map_erase_reads len)
      have p2: "\<exists>rest. map erase new @ rest = slow_pattern c sync (SYNC_MAX_RETRIES - i) t"
        using n2 unfolding pat me by auto
      have "set (butlast new) \<subseteq> {W} \<union> set (map (Readl comp) pre) \<union> set (butlast new')"
        by (auto simp: new_def butlast_append dest: in_set_butlastD)
      then have p1: "\<forall>ev \<in> set (butlast new). \<not> complete_read c sync ev"
        using notW pre_nc n3 by blast
      have p3: "(\<forall>h. readl_relaxed e h comp AND C \<noteq> C)
          \<longrightarrow> map erase new = slow_pattern c sync (SYNC_MAX_RETRIES - i) t"
        using n4 unfolding pat me by simp
      show ?thesis
        using r p1 p2 p3 unfolding comp_def C_def by blast
    qed
  qed
qed

lemma slow_pattern_5:
  "slow_pattern c sync SYNC_MAX_RETRIES SYNC_TIMEOUT
     = concat (map (slow_attempt c sync) [5, 15, 45, 135, 405])"
  by (simp add: SYNC_MAX_RETRIES_def SYNC_TIMEOUT_def SYNC_TIMEOUT_MULTIPLIER_def
        eval_nat_numeral)

text \<open>
  C9. The slow path of the barrier only appends to the trace. What it appends is, up to
  the values read, an initial part of five attempts of 5, 15, 45, 135 and 405 polls, each
  started by one \<^verbatim>\<open>SYNC_CMD\<close> store: at most five re-issues with these bounds. No
  event but the last one is a load of \<^verbatim>\<open>SYNC_COMP\<close> with \<^verbatim>\<open>COMPLETE\<close> set: once
  completion is seen, nothing more is issued. If the register never reports completion,
  all five attempts are made in full. The function returns the trace only, no status.
\<close>

theorem invalidation_barrier_slow_retries:
  "\<exists>new. invalidation_barrier_slow c e sync tr = tr @ new
     \<and> (\<exists>rest. map erase new @ rest = concat (map (slow_attempt c sync) [5, 15, 45, 135, 405]))
     \<and> (\<forall>ev \<in> set (butlast new). \<not> complete_read c sync ev)
     \<and> ((\<forall>h. readl_relaxed e h (sync + REG_NS_SYNC_COMP (regs c)) AND SYNC_COMP_COMPLETE (vals c)
                 \<noteq> SYNC_COMP_COMPLETE (vals c))
          \<longrightarrow> map erase new = concat (map (slow_attempt c sync) [5, 15, 45, 135, 405]))"
  using slow_loop_trace [of c e sync 0 SYNC_TIMEOUT tr]
  by (simp add: invalidation_barrier_slow_def slow_pattern_5)


theorem invalidation_barrier_slow_retries_witness:
  "map erase (invalidation_barrier_slow sample_hdr (sample_env (\<lambda>a. 0) (\<lambda>p. 0)) 0x8000 [])
     = concat (map (slow_attempt sample_hdr 0x8000) [5, 15, 45, 135, 405])"
  using invalidation_barrier_slow_retries
          [of sample_hdr "sample_env (\<lambda>a. 0) (\<lambda>p. 0)" "0x8000" "[]"]
  by (auto simp: sample_env_def sample_hdr_def sample_vals_def)

lemmas sample_defs = sample_hdr_def sample_regs_def sample_regs_v9_def sample_masks_def
  sample_vals_def

subsection \<open>The access masks of the trap handler\<close>

lemma write_mask_v1_v2:
  "off \<noteq> REG_NS_READ_MPTC (regs c) \<Longrightarrow> host_mmio_reg_access_mask_v1_v2 c off True = 0"
  by (simp add: host_mmio_reg_access_mask_v1_v2_def Let_def)

lemma write_mask_v9:
  "off \<noteq> REG_NS_V9_READ_STLB (regs9 c) \<Longrightarrow> off \<noteq> REG_NS_V9_READ_MPTC (regs9 c) \<Longrightarrow>
   off \<noteq> REG_NS_V9_READ_PTLB (regs9 c) \<Longrightarrow> host_mmio_reg_access_mask_v9 c off True = 0"
  by (simp add: host_mmio_reg_access_mask_v9_def Let_def)

lemma write_mask_writable:
  "off \<notin> set (host_writable c rops) \<Longrightarrow> host_mmio_reg_access_mask c rops off True = 0"
  by (cases rops)
     (simp_all add: host_mmio_reg_access_mask_def Let_def write_mask_v1_v2 write_mask_v9)

lemma outside_tables_v1_v2:
  "\<not> in_version_table c ops_v1_v2 off \<Longrightarrow> host_mmio_reg_access_mask_v1_v2 c off w = 0"
  by (simp add: host_mmio_reg_access_mask_v1_v2_def Let_def)

lemma outside_tables_v9:
  "\<not> in_version_table c ops_v9 off \<Longrightarrow> host_mmio_reg_access_mask_v9 c off w = 0"
  by (auto simp: host_mmio_reg_access_mask_v9_def Let_def)

lemma outside_tables:
  "\<not> in_mask_tables c rops off \<Longrightarrow> host_mmio_reg_access_mask c rops off w = 0"
  by (cases rops)
     (auto simp: in_mask_tables_def in_common_table_def host_mmio_reg_access_mask_def Let_def
        outside_tables_v1_v2 outside_tables_v9 simp del: in_version_table.simps)

text \<open>
  C8. A store is let through (the mask for \<open>is_write\<close> is not zero) only at
  \<^verbatim>\<open>INTERRUPT_CLEAR\<close> and at the selector registers of the debug read-out:
  \<^verbatim>\<open>READ_MPTC\<close> on v1/v2, \<^verbatim>\<open>V9_READ_STLB\<close>, \<^verbatim>\<open>V9_READ_MPTC\<close> and
  \<^verbatim>\<open>V9_READ_PTLB\<close> on v9. So the control, configuration, invalidation and L1 entry
  registers, none of which is one of those, are never host-writable. An offset that is
  in none of the mask tables has the mask zero for stores and for loads.
\<close>

theorem host_mmio_write_mask:
  "(host_mmio_reg_access_mask c rops off True \<noteq> 0 \<longrightarrow> off \<in> set (host_writable c rops))
   \<and> (off \<in> set (protected_regs c) \<and> off \<notin> set (host_writable c rops)
        \<longrightarrow> host_mmio_reg_access_mask c rops off True = 0)
   \<and> (\<not> in_mask_tables c rops off
        \<longrightarrow> host_mmio_reg_access_mask c rops off True = 0
            \<and> host_mmio_reg_access_mask c rops off False = 0)"
  using write_mask_writable [of off c rops] outside_tables [of c rops off]
  by blast


theorem host_mmio_write_mask_witness:
  "host_mmio_reg_access_mask sample_hdr ops_v9 0x2c True \<noteq> 0
   \<and> 0x2c \<in> set (host_writable sample_hdr ops_v9)
   \<and> 0x4004 \<in> set (protected_regs sample_hdr)
   \<and> 0x4004 \<notin> set (host_writable sample_hdr ops_v1_v2)
   \<and> host_mmio_reg_access_mask sample_hdr ops_v1_v2 0x4004 True = 0
   \<and> \<not> in_mask_tables sample_hdr ops_v9 0x1000
   \<and> host_mmio_reg_access_mask sample_hdr ops_v9 0x1000 True = 0
   \<and> host_mmio_reg_access_mask sample_hdr ops_v9 0x1000 False = 0"
proof -
  have a: "host_mmio_reg_access_mask sample_hdr ops_v9 0x2c True \<noteq> 0"
    by (simp add: host_mmio_reg_access_mask_def sample_defs)
  have b: "0x4004 \<in> set (protected_regs sample_hdr)"
    by (simp add: protected_regs_def sample_defs upt_rec)
  have c: "0x4004 \<notin> set (host_writable sample_hdr ops_v1_v2)"
    by (simp add: sample_defs)
  have d: "\<not> in_mask_tables sample_hdr ops_v9 0x1000"
    by (simp add: in_mask_tables_def in_common_table_def sample_defs)
  show ?thesis
    using a b c d host_mmio_write_mask [of sample_hdr ops_v9 "0x2c"]
      host_mmio_write_mask [of sample_hdr ops_v1_v2 "0x4004"]
      host_mmio_write_mask [of sample_hdr ops_v9 "0x1000"]
    by blast
qed

subsection \<open>Identity-map calls on an empty range\<close>

text \<open>
  C5. When the range, after the end is clamped to \<^verbatim>\<open>PA_MAX\<close>, the start aligned down
  and the end aligned up to \<^verbatim>\<open>SMPT_GRAN\<close>, has its start at or after its end, both
  \<^verbatim>\<open>host_stage2_idmap_prepare\<close> and \<^verbatim>\<open>host_stage2_idmap_apply\<close> leave
  \<^verbatim>\<open>host_mpt\<close> and the trace as they were: no MMIO access at all.
\<close>

theorem idmap_empty_range_is_noop:
  assumes "ALIGN (if en > PA_MAX c then PA_MAX c else en) (SMPT_GRAN (vals c))
             \<le> ALIGN_DOWN start (SMPT_GRAN (vals c))"
  shows "s2mpu_host_stage2_idmap_prepare c mops start en prt (hm, tr) = (hm, tr)
         \<and> s2mpu_host_stage2_idmap_apply c mops dev start en (hm, tr) = (hm, tr)"
proof -
  have "to_valid_range c start en = None"
    using assms by (simp add: to_valid_range_def Let_def)
  then show ?thesis
    by (simp add: s2mpu_host_stage2_idmap_prepare_def s2mpu_host_stage2_idmap_apply_def)
qed

theorem idmap_empty_range_is_noop_witness:
  "ALIGN (if (0x100005000 :: u64) > PA_MAX sample_hdr then PA_MAX sample_hdr else 0x100005000)
       (SMPT_GRAN (vals sample_hdr))
     \<le> ALIGN_DOWN 0x100000000 (SMPT_GRAN (vals sample_hdr))
   \<and> s2mpu_host_stage2_idmap_prepare sample_hdr sample_mpt_ops 0x100000000 0x100005000 6
        (zero_mpt sample_hdr, []) = (zero_mpt sample_hdr, [])
   \<and> s2mpu_host_stage2_idmap_apply sample_hdr sample_mpt_ops
        \<lparr>va = 0x10000, dev_size = 0x10000,
         data = \<lparr>version = 0x20000000, context_cfg_valid_vid = 0\<rparr>, children = []\<rparr>
        0x100000000 0x100005000 (zero_mpt sample_hdr, []) = (zero_mpt sample_hdr, [])"
proof -
  have h: "ALIGN (if (0x100005000 :: u64) > PA_MAX sample_hdr then PA_MAX sample_hdr else 0x100005000)
       (SMPT_GRAN (vals sample_hdr))
     \<le> ALIGN_DOWN 0x100000000 (SMPT_GRAN (vals sample_hdr))"
    by (simp add: ALIGN_def ALIGN_DOWN_def PA_MAX_def SZ_1G_def sample_defs)
  show ?thesis
    using h idmap_empty_range_is_noop [OF h] by blast
qed

subsection \<open>The trap handler\<close>

text \<open>
  C6. When the access width decoded from the syndrome is not 4 bytes, or the offset is not
  a multiple of 4, the handler returns \<^verbatim>\<open>false\<close>, with the host context and the trace
  unchanged.
\<close>

theorem dabt_handler_rejects_width_and_alignment:
  assumes "dabt_len c esr \<noteq> 4 \<or> off AND 3 \<noteq> 0"
  shows "s2mpu_host_dabt_handler c e rops dev host_ctxt esr off tr = (False, host_ctxt, tr)"
  using assms by (auto simp: s2mpu_host_dabt_handler_def Let_def)

theorem dabt_handler_rejects_width_and_alignment_witness:
  "dabt_len sample_hdr 0x400000 \<noteq> 4
   \<and> s2mpu_host_dabt_handler sample_hdr (sample_env (\<lambda>a. 0) (\<lambda>p. 0)) ops_v1_v2
        \<lparr>va = 0x10000, dev_size = 0x10000,
         data = \<lparr>version = 0x20000000, context_cfg_valid_vid = 0\<rparr>, children = []\<rparr>
        (\<lambda>r. 0) 0x400000 0x0 [] = (False, (\<lambda>r. 0), [])
   \<and> (0x2 :: u64) AND 3 \<noteq> 0
   \<and> s2mpu_host_dabt_handler sample_hdr (sample_env (\<lambda>a. 0) (\<lambda>p. 0)) ops_v1_v2
        \<lparr>va = 0x10000, dev_size = 0x10000,
         data = \<lparr>version = 0x20000000, context_cfg_valid_vid = 0\<rparr>, children = []\<rparr>
        (\<lambda>r. 0) 0x800000 0x2 [] = (False, (\<lambda>r. 0), [])"
proof -
  have a: "dabt_len sample_hdr 0x400000 \<noteq> 4"
    by (simp add: dabt_len_def sample_defs)
  have b: "(0x2 :: u64) AND 3 \<noteq> 0"
    by simp
  show ?thesis
    using a b
      dabt_handler_rejects_width_and_alignment [of sample_hdr "0x400000" "0x0", OF disjI1 [OF a]]
      dabt_handler_rejects_width_and_alignment [of sample_hdr "0x800000" "0x2", OF disjI2 [OF b]]
    by blast
qed

text \<open>
  C7. For a 4-byte access at an offset that is a multiple of 4, the handler computes the
  access mask of the offset. With a zero mask it returns \<^verbatim>\<open>false\<close> and touches nothing.
  Otherwise it returns \<^verbatim>\<open>true\<close>; a write stores the low 32 bits of host register
  \<open>rd\<close>, masked, to \<open>va + off\<close>; a read loads from \<open>va + off\<close> and puts the masked
  value into host register \<open>rd\<close>.
\<close>

theorem dabt_handler_masked_access:
  assumes "dabt_len c esr = 4" and "off AND 3 = 0"
  shows "s2mpu_host_dabt_handler c e rops dev host_ctxt esr off tr =
     (let msk = host_mmio_reg_access_mask c rops off (dabt_is_write c esr);
          rd = dabt_rd c esr
      in if msk = 0 then (False, host_ctxt, tr)
         else if dabt_is_write c esr
         then (True, host_ctxt, tr @ [Writel (va dev + off) (ucast (host_ctxt rd) AND msk)])
         else (True, host_ctxt(rd := ucast (readl_relaxed e tr (va dev + off) AND msk)),
               tr @ [Readl (va dev + off) (readl_relaxed e tr (va dev + off))]))"
proof -
  have "(ucast (host_ctxt r AND ucast m) :: u32) = ucast (host_ctxt r) AND m" for r and m :: u32
    by (rule bit_word_eqI) (auto simp: bit_simps)
  then show ?thesis
    using assms
    by (simp add: s2mpu_host_dabt_handler_def Let_def readl_def writel_def)
qed

theorem dabt_handler_masked_access_witness:
  "dabt_len sample_hdr 0x830040 = 4 \<and> (0x2c :: u64) AND 3 = 0
   \<and> s2mpu_host_dabt_handler sample_hdr (sample_env (\<lambda>a. 0) (\<lambda>p. 0)) ops_v1_v2
        \<lparr>va = 0x10000, dev_size = 0x10000,
         data = \<lparr>version = 0x20000000, context_cfg_valid_vid = 0\<rparr>, children = []\<rparr>
        (\<lambda>r. 0x1234) 0x830040 0x2c []
      = (True, (\<lambda>r. 0x1234), [Writel 0x1002c 0x34])"
proof -
  have a: "dabt_len sample_hdr 0x830040 = 4"
    by (simp add: dabt_len_def sample_defs)
  have b: "(0x2c :: u64) AND 3 = 0"
    by simp
  show ?thesis
    using a b dabt_handler_masked_access [OF a b, of "sample_env (\<lambda>a. 0) (\<lambda>p. 0)" ops_v1_v2
        "\<lparr>va = 0x10000, dev_size = 0x10000,
         data = \<lparr>version = 0x20000000, context_cfg_valid_vid = 0\<rparr>, children = []\<rparr>"
        "\<lambda>r. 0x1234" "[]"]
    by (simp add: host_mmio_reg_access_mask_def dabt_is_write_def dabt_rd_def sample_defs Let_def)
qed

subsection \<open>The wait on the status register\<close>

lemma readl_simp [simp]:
  "readl e a tr = (readl_relaxed e tr a, tr @ [Readl a (readl_relaxed e tr a)])"
  by (simp add: readl_def Let_def)

lemma wait_while_shape:
  assumes "wait_while e a m tr = Some tr'"
  shows "\<exists>pre v. tr' = tr @ map (Readl a) (pre @ [v])
           \<and> (\<forall>u \<in> set pre. u AND m = m) \<and> v AND m \<noteq> m"
proof (rule wait_while.raw_induct [rotated, OF assms])
  fix f :: "env \<Rightarrow> u64 \<Rightarrow> u32 \<Rightarrow> trace \<Rightarrow> trace option" and e a m tr tr'
  assume IH: "\<And>e a m tr tr'. f e a m tr = Some tr' \<Longrightarrow>
      \<exists>pre v. tr' = tr @ map (Readl a) (pre @ [v]) \<and> (\<forall>u \<in> set pre. u AND m = m) \<and> v AND m \<noteq> m"
    and step: "(case readl e a tr of (v, tr') \<Rightarrow> if v AND m = m then f e a m tr' else Some tr')
        = Some tr'"
  define v where "v = readl_relaxed e tr a"
  show "\<exists>pre v. tr' = tr @ map (Readl a) (pre @ [v]) \<and> (\<forall>u \<in> set pre. u AND m = m) \<and> v AND m \<noteq> m"
  proof (cases "v AND m = m")
    case True
    with step have "f e a m (tr @ [Readl a v]) = Some tr'"
      by (simp add: v_def)
    from IH [OF this] obtain pre w where
      "tr' = (tr @ [Readl a v]) @ map (Readl a) (pre @ [w])"
      "\<forall>u \<in> set pre. u AND m = m" "w AND m \<noteq> m"
      by blast
    then show ?thesis
      using True by (intro exI [of _ "v # pre"] exI [of _ w]) simp
  next
    case False
    with step have "tr' = tr @ [Readl a v]"
      by (simp add: v_def)
    then show ?thesis
      using False by (intro exI [of _ "[]"] exI [of _ v]) simp
  qed
qed

lemma wait_while_returns:
  assumes "\<forall>k < n. readl_relaxed e (polls e a k tr) a AND m = m"
    and "readl_relaxed e (polls e a n tr) a AND m \<noteq> m"
  shows "wait_while e a m tr = Some (polls e a (Suc n) tr)"
  using assms
proof (induction n arbitrary: tr)
  case 0
  then show ?case
    by (subst wait_while.simps) simp
next
  case (Suc n)
  from Suc.prems(1) have busy: "readl_relaxed e tr a AND m = m"
    by force
  have "\<forall>k < n. readl_relaxed e (polls e a k (tr @ [Readl a (readl_relaxed e tr a)])) a AND m = m"
    using Suc.prems(1) by (metis Suc_less_eq polls.simps(2) readl_simp snd_conv)
  moreover have "readl_relaxed e (polls e a n (tr @ [Readl a (readl_relaxed e tr a)])) a AND m \<noteq> m"
    using Suc.prems(2) by simp
  ultimately have "wait_while e a m (tr @ [Readl a (readl_relaxed e tr a)])
      = Some (polls e a (Suc n) (tr @ [Readl a (readl_relaxed e tr a)]))"
    by (rule Suc.IH)
  then show ?case
    using busy by (subst wait_while.simps) simp
qed


lemma barrier_init_trace:
  "invalidation_barrier_init c dev tr
     = tr @ map (\<lambda>sync. Writel (sync + REG_NS_SYNC_CMD (regs c)) (SYNC_CMD_SYNC (vals c)))
              (children dev)"
proof -
  have "fold (\<lambda>sync tr. sync_cmd_start c sync tr) ks tr
      = tr @ map (\<lambda>sync. Writel (sync + REG_NS_SYNC_CMD (regs c)) (SYNC_CMD_SYNC (vals c))) ks"
    for ks
    by (induction ks arbitrary: tr) (simp_all add: sync_cmd_start_def writel_def)
  then show ?thesis
    by (simp add: invalidation_barrier_init_def)
qed

lemma barrier_complete_child_ext: "\<exists>new. barrier_complete_child c e sync tr = tr @ new"
proof -
  obtain new where "invalidation_barrier_slow c e sync (tr @ [Readl (sync + REG_NS_SYNC_COMP (regs c))
        (readl_relaxed e tr (sync + REG_NS_SYNC_COMP (regs c)))])
      = (tr @ [Readl (sync + REG_NS_SYNC_COMP (regs c))
        (readl_relaxed e tr (sync + REG_NS_SYNC_COMP (regs c)))]) @ new"
    using slow_loop_trace unfolding invalidation_barrier_slow_def by blast
  then show ?thesis
    by (simp add: barrier_complete_child_def)
qed

lemma barrier_complete_children_ext: "\<exists>new. barrier_complete_children c e dev tr = tr @ new"
proof -
  have "\<exists>new. fold (\<lambda>sync tr. barrier_complete_child c e sync tr) ks tr = tr @ new" for ks
  proof (induction ks arbitrary: tr)
    case Nil
    then show ?case by simp
  next
    case (Cons k ks)
    obtain n1 where n1: "barrier_complete_child c e k tr = tr @ n1"
      using barrier_complete_child_ext by blast
    obtain n2 where "fold (\<lambda>sync tr. barrier_complete_child c e sync tr) ks (tr @ n1)
        = (tr @ n1) @ n2"
      using Cons.IH by blast
    then show ?case
      using n1 by simp
  qed
  then show ?thesis
    by (simp add: barrier_complete_children_def)
qed

text \<open>
  C3, as the code has it. The version that decides is the one cached in the driver data
  of the device. When it is v2 or v9, \<^verbatim>\<open>__invalidation_barrier_complete\<close> runs the
  loop over the children and then only loads \<^verbatim>\<open>STATUS\<close>: every load but the last
  has both \<^verbatim>\<open>BUSY\<close> and \<^verbatim>\<open>ON_INVALIDATING\<close> set, the last one does not have both, and
  nothing follows it. It returns as soon as some load does not have both bits. For any
  other cached version (v1 among them) the trace is that of the loop over the children:
  no load of \<^verbatim>\<open>STATUS\<close> is added.
\<close>

theorem invalidation_barrier_complete_status_poll:
  "(is_version c dev (S2MPU_VERSION_2 (vals c)) \<or> is_version c dev (S2MPU_VERSION_9 (vals c)) \<longrightarrow>
      (\<forall>tr'. invalidation_barrier_complete c e dev tr = Some tr' \<longrightarrow>
         (\<exists>pre v. tr' = barrier_complete_children c e dev tr
                          @ map (Readl (va dev + REG_NS_STATUS (regs c))) (pre @ [v])
            \<and> (\<forall>u \<in> set pre. u AND (STATUS_BUSY (vals c) OR STATUS_ON_INVALIDATING (vals c))
                                = STATUS_BUSY (vals c) OR STATUS_ON_INVALIDATING (vals c))
            \<and> v AND (STATUS_BUSY (vals c) OR STATUS_ON_INVALIDATING (vals c))
                \<noteq> STATUS_BUSY (vals c) OR STATUS_ON_INVALIDATING (vals c)))
      \<and> (\<forall>n. (\<forall>k < n. readl_relaxed e (polls e (va dev + REG_NS_STATUS (regs c)) k
                                    (barrier_complete_children c e dev tr))
                          (va dev + REG_NS_STATUS (regs c))
                        AND (STATUS_BUSY (vals c) OR STATUS_ON_INVALIDATING (vals c))
                      = STATUS_BUSY (vals c) OR STATUS_ON_INVALIDATING (vals c))
              \<and> readl_relaxed e (polls e (va dev + REG_NS_STATUS (regs c)) n
                                    (barrier_complete_children c e dev tr))
                          (va dev + REG_NS_STATUS (regs c))
                    AND (STATUS_BUSY (vals c) OR STATUS_ON_INVALIDATING (vals c))
                  \<noteq> STATUS_BUSY (vals c) OR STATUS_ON_INVALIDATING (vals c)
              \<longrightarrow> invalidation_barrier_complete c e dev tr
                    = Some (polls e (va dev + REG_NS_STATUS (regs c)) (Suc n)
                              (barrier_complete_children c e dev tr))))
   \<and> (\<not> is_version c dev (S2MPU_VERSION_2 (vals c)) \<and> \<not> is_version c dev (S2MPU_VERSION_9 (vals c)) \<longrightarrow>
        invalidation_barrier_complete c e dev tr = Some (barrier_complete_children c e dev tr))"
proof (intro conjI impI allI)
  fix tr'
  assume "is_version c dev (S2MPU_VERSION_2 (vals c)) \<or> is_version c dev (S2MPU_VERSION_9 (vals c))"
    and "invalidation_barrier_complete c e dev tr = Some tr'"
  then have "wait_while e (va dev + REG_NS_STATUS (regs c))
      (STATUS_BUSY (vals c) OR STATUS_ON_INVALIDATING (vals c))
      (barrier_complete_children c e dev tr) = Some tr'"
    by (simp add: invalidation_barrier_complete_def Let_def)
  then show "\<exists>pre v. tr' = barrier_complete_children c e dev tr
                          @ map (Readl (va dev + REG_NS_STATUS (regs c))) (pre @ [v])
            \<and> (\<forall>u \<in> set pre. u AND (STATUS_BUSY (vals c) OR STATUS_ON_INVALIDATING (vals c))
                                = STATUS_BUSY (vals c) OR STATUS_ON_INVALIDATING (vals c))
            \<and> v AND (STATUS_BUSY (vals c) OR STATUS_ON_INVALIDATING (vals c))
                \<noteq> STATUS_BUSY (vals c) OR STATUS_ON_INVALIDATING (vals c)"
    by (rule wait_while_shape)
next
  fix n
  assume v: "is_version c dev (S2MPU_VERSION_2 (vals c)) \<or> is_version c dev (S2MPU_VERSION_9 (vals c))"
    and "(\<forall>k < n. readl_relaxed e (polls e (va dev + REG_NS_STATUS (regs c)) k
                                    (barrier_complete_children c e dev tr))
                          (va dev + REG_NS_STATUS (regs c))
                        AND (STATUS_BUSY (vals c) OR STATUS_ON_INVALIDATING (vals c))
                      = STATUS_BUSY (vals c) OR STATUS_ON_INVALIDATING (vals c))
              \<and> readl_relaxed e (polls e (va dev + REG_NS_STATUS (regs c)) n
                                    (barrier_complete_children c e dev tr))
                          (va dev + REG_NS_STATUS (regs c))
                    AND (STATUS_BUSY (vals c) OR STATUS_ON_INVALIDATING (vals c))
                  \<noteq> STATUS_BUSY (vals c) OR STATUS_ON_INVALIDATING (vals c)"
  then have "wait_while e (va dev + REG_NS_STATUS (regs c))
      (STATUS_BUSY (vals c) OR STATUS_ON_INVALIDATING (vals c))
      (barrier_complete_children c e dev tr)
    = Some (polls e (va dev + REG_NS_STATUS (regs c)) (Suc n) (barrier_complete_children c e dev tr))"
    by (intro wait_while_returns) blast+
  then show "invalidation_barrier_complete c e dev tr
                    = Some (polls e (va dev + REG_NS_STATUS (regs c)) (Suc n)
                              (barrier_complete_children c e dev tr))"
    using v by (simp add: invalidation_barrier_complete_def Let_def)
next
  assume "\<not> is_version c dev (S2MPU_VERSION_2 (vals c)) \<and> \<not> is_version c dev (S2MPU_VERSION_9 (vals c))"
  then show "invalidation_barrier_complete c e dev tr = Some (barrier_complete_children c e dev tr)"
    by (simp add: invalidation_barrier_complete_def Let_def)
qed

lemma sample_status_addr:
  "va (sample_dev ver cfg kids) + REG_NS_STATUS (regs sample_hdr) = 0x10068"
  by (simp add: sample_dev_def sample_defs)

lemma sample_status_mask:
  "STATUS_BUSY (vals sample_hdr) OR STATUS_ON_INVALIDATING (vals sample_hdr) = 3"
  by (simp add: sample_defs)

lemma sample_no_children:
  "barrier_complete_children c e (sample_dev ver cfg []) tr = tr"
  by (simp add: barrier_complete_children_def sample_dev_def)

lemma sample_dev_version:
  "is_version sample_hdr (sample_dev ver cfg kids) w \<longleftrightarrow> ver AND 0xffff0000 = w"
  by (simp add: is_version_def sample_dev_def sample_defs)

theorem invalidation_barrier_complete_status_poll_witness:
  "is_version sample_hdr (sample_dev 0x20000000 0 []) (S2MPU_VERSION_2 (vals sample_hdr))
   \<and> invalidation_barrier_complete sample_hdr env_busy_once (sample_dev 0x20000000 0 []) []
       = Some [Readl 0x10068 3, Readl 0x10068 0]
   \<and> \<not> is_version sample_hdr (sample_dev 0x11000000 0 []) (S2MPU_VERSION_2 (vals sample_hdr))
   \<and> \<not> is_version sample_hdr (sample_dev 0x11000000 0 []) (S2MPU_VERSION_9 (vals sample_hdr))
   \<and> invalidation_barrier_complete sample_hdr env_busy_once (sample_dev 0x11000000 0 []) []
       = Some []"
proof -
  have v2: "is_version sample_hdr (sample_dev 0x20000000 0 []) (S2MPU_VERSION_2 (vals sample_hdr))"
    by (simp add: sample_dev_version) (simp add: sample_defs)
  have v1: "\<not> is_version sample_hdr (sample_dev 0x11000000 0 []) (S2MPU_VERSION_2 (vals sample_hdr))"
    "\<not> is_version sample_hdr (sample_dev 0x11000000 0 []) (S2MPU_VERSION_9 (vals sample_hdr))"
    by (simp_all add: sample_dev_version) (simp_all add: sample_defs)
  have r0: "readl_relaxed env_busy_once [] 0x10068 = 3"
    and r1: "readl_relaxed env_busy_once [Readl 0x10068 3] 0x10068 = 0"
    by (simp_all add: env_busy_once_def)
  have p: "polls env_busy_once 0x10068 (Suc (Suc 0)) [] = [Readl 0x10068 3, Readl 0x10068 0]"
    by (simp add: r0 r1)
  have busy: "\<forall>k < Suc 0. readl_relaxed env_busy_once (polls env_busy_once 0x10068 k []) 0x10068
      AND 3 = 3"
    by (simp add: r0)
  have idle: "readl_relaxed env_busy_once (polls env_busy_once 0x10068 (Suc 0) []) 0x10068
      AND 3 \<noteq> 3"
    by (simp add: r0 r1)
  have a: "invalidation_barrier_complete sample_hdr env_busy_once (sample_dev 0x20000000 0 []) []
       = Some [Readl 0x10068 3, Readl 0x10068 0]"
    using invalidation_barrier_complete_status_poll
        [of sample_hdr "sample_dev 0x20000000 0 []" env_busy_once "[]",
         unfolded sample_status_addr sample_status_mask sample_no_children,
         THEN conjunct1, THEN mp, OF disjI1 [OF v2], THEN conjunct2, THEN spec, of "Suc 0",
         THEN mp, OF conjI [OF busy idle]]
    unfolding p .
  have b: "invalidation_barrier_complete sample_hdr env_busy_once (sample_dev 0x11000000 0 []) []
       = Some []"
    using invalidation_barrier_complete_status_poll
        [of sample_hdr "sample_dev 0x11000000 0 []" env_busy_once "[]",
         unfolded sample_no_children, THEN conjunct2, THEN mp, OF conjI [OF v1]] .
  show ?thesis
    using v2 v1 a b by blast
qed

text \<open>A v2 device whose \<^verbatim>\<open>STATUS\<close> reads \<^verbatim>\<open>BUSY\<close> alone: the wait ends after one
  load, although the \<^verbatim>\<open>BUSY\<close> bit is set in the value read.\<close>

theorem invalidation_barrier_complete_status_poll_counterexample:
  "is_version sample_hdr (sample_dev 0x20000000 0 []) (S2MPU_VERSION_2 (vals sample_hdr))
   \<and> invalidation_barrier_complete sample_hdr (sample_env (all_read 1) donate_ok)
         (sample_dev 0x20000000 0 []) []
       = Some [Readl 0x10068 1]
   \<and> (1 :: u32) AND STATUS_BUSY (vals sample_hdr) \<noteq> 0"
proof -
  have v2: "is_version sample_hdr (sample_dev 0x20000000 0 []) (S2MPU_VERSION_2 (vals sample_hdr))"
    by (simp add: sample_dev_version) (simp add: sample_defs)
  have r: "readl_relaxed (sample_env (all_read 1) donate_ok) tr a = 1" for tr a
    by (simp add: sample_env_def all_read_def)
  have w: "wait_while (sample_env (all_read 1) donate_ok) 0x10068 3 [] = Some [Readl 0x10068 1]"
    by (subst wait_while.simps) (simp add: r)
  have a: "invalidation_barrier_complete sample_hdr (sample_env (all_read 1) donate_ok)
         (sample_dev 0x20000000 0 []) [] = Some [Readl 0x10068 1]"
    unfolding invalidation_barrier_complete_def Let_def sample_status_addr sample_status_mask
      sample_no_children
    using v2 w by simp
  have b: "(1 :: u32) AND STATUS_BUSY (vals sample_hdr) \<noteq> 0"
    by (simp add: sample_defs)
  show ?thesis
    using v2 a b by blast
qed

subsection \<open>Bring-up\<close>

lemma barrier_complete_ext:
  assumes "invalidation_barrier_complete c e dev tr = Some tr'"
  shows "\<exists>new. tr' = tr @ new"
proof -
  obtain n1 where n1: "barrier_complete_children c e dev tr = tr @ n1"
    using barrier_complete_children_ext by blast
  show ?thesis
  proof (cases "is_version c dev (S2MPU_VERSION_2 (vals c)) \<or> is_version c dev (S2MPU_VERSION_9 (vals c))")
    case True
    with assms have "wait_while e (va dev + REG_NS_STATUS (regs c))
        (STATUS_BUSY (vals c) OR STATUS_ON_INVALIDATING (vals c)) (tr @ n1) = Some tr'"
      by (simp add: invalidation_barrier_complete_def Let_def n1)
    from wait_while_shape [OF this] show ?thesis
      by auto
  next
    case False
    with assms show ?thesis
      by (auto simp: invalidation_barrier_complete_def Let_def n1)
  qed
qed

lemma all_invalidation_ext:
  assumes "all_invalidation c e dev tr = Some tr'"
  shows "\<exists>mid. tr' = tr @ Writel (va dev + REG_NS_ALL_INVALIDATION (regs c))
                            (INVALIDATION_INVALIDATE (vals c)) # mid"
proof -
  from assms obtain new where "tr' = invalidation_barrier_init c dev
      (writel (INVALIDATION_INVALIDATE (vals c)) (va dev + REG_NS_ALL_INVALIDATION (regs c)) tr) @ new"
    unfolding all_invalidation_def using barrier_complete_ext by blast
  then show ?thesis
    by (simp add: barrier_init_trace writel_def)
qed

lemma context_cfg_frame:
  assumes "context_cfg_valid_vid_fn c e dev b tr = Some (r, dev', tr')"
  shows "va dev' = va dev \<and> children dev' = children dev
         \<and> version (data dev') = version (data dev)
         \<and> (\<exists>pre. tr' = tr @ pre \<and> (\<forall>ev \<in> set pre. is_load ev))"
proof (cases "context_cfg_valid_vid (data dev) \<noteq> 0")
  case True
  with assms show ?thesis
    by (simp add: context_cfg_valid_vid_fn_def)
next
  case False
  with assms show ?thesis
    by (auto simp: context_cfg_valid_vid_fn_def Let_def split: option.splits)
qed

lemma initialize_v2_ok:
  assumes "initialize_v2 c e dev tr = Some (0, dev', tr')"
  shows "va dev' = va dev \<and> children dev' = children dev
         \<and> version (data dev') = version (data dev)
         \<and> (\<exists>pre cfg. (\<forall>ev \<in> set pre. is_load ev) \<and> cfg \<noteq> 0
              \<and> tr' = tr @ pre @ [Writel (va dev + REG_NS_CONTEXT_CFG_VALID_VID (regs c)) cfg])"
proof -
  from assms obtain cfg tr1 where
    cc: "context_cfg_valid_vid_fn c e dev (ALL_VIDS_BITMAP (vals c)) tr = Some (cfg, dev', tr1)"
    and nz: "cfg \<noteq> 0"
    and tr': "tr' = writel cfg (va dev' + REG_NS_CONTEXT_CFG_VALID_VID (regs c)) tr1"
    by (auto simp: initialize_v2_def EINVAL_def split: option.splits if_splits)
  from context_cfg_frame [OF cc] obtain pre where
    "va dev' = va dev" "children dev' = children dev" "version (data dev') = version (data dev)"
    "tr1 = tr @ pre" "\<forall>ev \<in> set pre. is_load ev"
    by blast
  then show ?thesis
    using nz tr' by (auto simp: writel_def)
qed

lemma initialize_ok:
  assumes "initialize c e dev tr = Some (0, dev', tr')"
  shows "va dev' = va dev \<and> children dev' = children dev
         \<and> ((is_version c dev' (S2MPU_VERSION_1 (vals c))
              \<and> (\<exists>pre. (\<forall>ev \<in> set pre. is_load ev) \<and> tr' = tr @ pre))
            \<or> (is_version c dev' (S2MPU_VERSION_2 (vals c))
                \<and> \<not> is_version c dev' (S2MPU_VERSION_1 (vals c))
                \<and> (\<exists>pre cfg. (\<forall>ev \<in> set pre. is_load ev) \<and> cfg \<noteq> 0
                     \<and> tr' = tr @ pre @ [Writel (va dev + REG_NS_CONTEXT_CFG_VALID_VID (regs c)) cfg])))"
proof -
  define dev1 where "dev1 = (if version (data dev) = 0
      then dev\<lparr>data := (data dev)\<lparr>version := readl_relaxed e tr (va dev + REG_NS_VERSION (regs c))\<rparr>\<rparr>
      else dev)"
  define tr1 where "tr1 = (if version (data dev) = 0
      then tr @ [Readl (va dev + REG_NS_VERSION (regs c))
                   (readl_relaxed e tr (va dev + REG_NS_VERSION (regs c)))]
      else tr)"
  have d1: "va dev1 = va dev" "children dev1 = children dev"
    by (simp_all add: dev1_def)
  obtain p1 where p1: "tr1 = tr @ p1" "\<forall>ev \<in> set p1. is_load ev"
    by (cases "version (data dev) = 0") (simp_all add: tr1_def)
  have eq: "initialize c e dev tr =
      (let ver = version (data dev1) AND VERSION_CHECK_MASK (vals c) in
       if ver = S2MPU_VERSION_1 (vals c) then Some (0, dev1, tr1)
       else if ver = S2MPU_VERSION_2 (vals c) then initialize_v2 c e dev1 tr1
       else Some (- EINVAL, dev1, tr1))"
    by (simp add: initialize_def dev1_def tr1_def Let_def)
  show ?thesis
  proof (cases "version (data dev1) AND VERSION_CHECK_MASK (vals c) = S2MPU_VERSION_1 (vals c)")
    case True
    with assms eq have "dev' = dev1" "tr' = tr1"
      by (simp_all add: Let_def)
    then show ?thesis
      using True d1 p1 by (auto simp: is_version_def)
  next
    case n1: False
    show ?thesis
    proof (cases "version (data dev1) AND VERSION_CHECK_MASK (vals c) = S2MPU_VERSION_2 (vals c)")
      case True
      with assms eq n1 have i2: "initialize_v2 c e dev1 tr1 = Some (0, dev', tr')"
        by (simp add: Let_def)
      from initialize_v2_ok [OF i2] obtain pre cfg where
        f: "va dev' = va dev1" "children dev' = children dev1"
          "version (data dev') = version (data dev1)"
        and s: "\<forall>ev \<in> set pre. is_load ev" "cfg \<noteq> 0"
          "tr' = tr1 @ pre @ [Writel (va dev1 + REG_NS_CONTEXT_CFG_VALID_VID (regs c)) cfg]"
        by blast
      have "tr' = tr @ (p1 @ pre) @ [Writel (va dev + REG_NS_CONTEXT_CFG_VALID_VID (regs c)) cfg]"
        using s(3) p1(1) d1 by simp
      moreover have "\<forall>ev \<in> set (p1 @ pre). is_load ev"
        using p1(2) s(1) by auto
      ultimately show ?thesis
        using True n1 f d1 s(2) unfolding is_version_def by metis
    next
      case False
      with assms eq n1 show ?thesis
        by (simp add: Let_def EINVAL_def)
    qed
  qed
qed

lemma set_control_regs_trace:
  "\<exists>body. set_control_regs c dev tr = tr @ body
      @ [Writel (va dev + REG_NS_CTRL0 (regs c))
           (CTRL0_ENABLE (vals c) OR CTRL0_INTERRUPT_ENABLE (vals c)
            OR (if is_version c dev (S2MPU_VERSION_2 (vals c))
                then CTRL0_FAULT_RESP_TYPE_DECERR (vals c)
                else CTRL0_FAULT_RESP_TYPE_SLVERR (vals c)))]"
  by (simp add: set_control_regs_def Let_def writel_def or.assoc)

lemma set_control_regs_v9_trace:
  "\<exists>body. set_control_regs_v9 c dev tr = tr @ body
      @ [Writel (va dev + REG_NS_V9_CTRL_PROT_EN_PER_VID_SET (regs9 c)) (ALL_VIDS_BITMAP (vals c)),
         Writel (va dev + REG_NS_V9_CFG_MPTW_ATTRIBUTE (regs9 c)) 0]"
  by (simp add: set_control_regs_v9_def Let_def writel_def)

text \<open>The value that \<^verbatim>\<open>__set_control_regs\<close> stores to \<^verbatim>\<open>CTRL0\<close>.\<close>

lemma reg_ops_set_control_regs_trace:
  "\<exists>body. reg_ops_set_control_regs rops c dev tr = tr @ body
      @ enable_tail c rops (va dev)
          (CTRL0_ENABLE (vals c) OR CTRL0_INTERRUPT_ENABLE (vals c)
            OR (if is_version c dev (S2MPU_VERSION_2 (vals c))
                then CTRL0_FAULT_RESP_TYPE_DECERR (vals c)
                else CTRL0_FAULT_RESP_TYPE_SLVERR (vals c)))"
  using set_control_regs_trace [of c dev tr] set_control_regs_v9_trace [of c dev tr]
  by (cases rops) simp_all


lemma reg_ops_init_va:
  assumes "reg_ops_init rops c e dev tr = Some (0, dev', tr')"
  shows "va dev' = va dev"
  using assms initialize_ok [of c e dev tr dev' tr'] initialize_v2_ok [of c e dev tr dev' tr']
  by (cases rops) simp_all

text \<open>A successful bring-up: the version init, then the events of the page-table encoder,
  then the invalidation, then the control registers.\<close>

lemma initialize_with_mpt_ok:
  assumes "initialize_with_mpt c e mops rops dev m tr = Some (0, dev', tr')"
  shows "\<exists>tr1 mid. reg_ops_init rops c e dev tr = Some (0, dev', tr1)
           \<and> tr' = tr1 @ init_with_mpt mops (va dev) m @ mid
                 @ enable_tail c rops (va dev)
                     (CTRL0_ENABLE (vals c) OR CTRL0_INTERRUPT_ENABLE (vals c)
                      OR (if is_version c dev' (S2MPU_VERSION_2 (vals c))
                          then CTRL0_FAULT_RESP_TYPE_DECERR (vals c)
                          else CTRL0_FAULT_RESP_TYPE_SLVERR (vals c)))"
proof -
  from assms obtain tr1 tr2 where
    i: "reg_ops_init rops c e dev tr = Some (0, dev', tr1)"
    and a: "all_invalidation c e dev' (tr1 @ init_with_mpt mops (va dev') m) = Some tr2"
    and t: "tr' = reg_ops_set_control_regs rops c dev' tr2"
    by (auto simp: initialize_with_mpt_def split: option.splits if_splits)
  have va: "va dev' = va dev"
    using reg_ops_init_va [OF i] .
  from all_invalidation_ext [OF a] obtain mid where
    "tr2 = (tr1 @ init_with_mpt mops (va dev') m)
        @ Writel (va dev' + REG_NS_ALL_INVALIDATION (regs c)) (INVALIDATION_INVALIDATE (vals c)) # mid"
    by blast
  moreover obtain body where "reg_ops_set_control_regs rops c dev' tr2 = tr2 @ body
      @ enable_tail c rops (va dev')
          (CTRL0_ENABLE (vals c) OR CTRL0_INTERRUPT_ENABLE (vals c)
            OR (if is_version c dev' (S2MPU_VERSION_2 (vals c))
                then CTRL0_FAULT_RESP_TYPE_DECERR (vals c)
                else CTRL0_FAULT_RESP_TYPE_SLVERR (vals c)))"
    using reg_ops_set_control_regs_trace by blast
  ultimately have "tr' = tr1 @ init_with_mpt mops (va dev) m
      @ (Writel (va dev + REG_NS_ALL_INVALIDATION (regs c)) (INVALIDATION_INVALIDATE (vals c))
           # mid @ body)
      @ enable_tail c rops (va dev)
          (CTRL0_ENABLE (vals c) OR CTRL0_INTERRUPT_ENABLE (vals c)
            OR (if is_version c dev' (S2MPU_VERSION_2 (vals c))
                then CTRL0_FAULT_RESP_TYPE_DECERR (vals c)
                else CTRL0_FAULT_RESP_TYPE_SLVERR (vals c)))"
    using t va by simp
  with i show ?thesis
    by blast
qed

lemma initialize_with_prot_ok:
  assumes "initialize_with_prot c e mops rops dev prt tr = Some (0, dev', tr')"
  shows "\<exists>tr1 mid. reg_ops_init rops c e dev tr = Some (0, dev', tr1)
           \<and> tr' = tr1 @ init_with_prot mops (va dev) prt @ mid
                 @ enable_tail c rops (va dev)
                     (CTRL0_ENABLE (vals c) OR CTRL0_INTERRUPT_ENABLE (vals c)
                      OR (if is_version c dev' (S2MPU_VERSION_2 (vals c))
                          then CTRL0_FAULT_RESP_TYPE_DECERR (vals c)
                          else CTRL0_FAULT_RESP_TYPE_SLVERR (vals c)))"
proof -
  from assms obtain tr1 tr2 where
    i: "reg_ops_init rops c e dev tr = Some (0, dev', tr1)"
    and a: "all_invalidation c e dev' (tr1 @ init_with_prot mops (va dev') prt) = Some tr2"
    and t: "tr' = reg_ops_set_control_regs rops c dev' tr2"
    by (auto simp: initialize_with_prot_def split: option.splits if_splits)
  have va: "va dev' = va dev"
    using reg_ops_init_va [OF i] .
  from all_invalidation_ext [OF a] obtain mid where
    "tr2 = (tr1 @ init_with_prot mops (va dev') prt)
        @ Writel (va dev' + REG_NS_ALL_INVALIDATION (regs c)) (INVALIDATION_INVALIDATE (vals c)) # mid"
    by blast
  moreover obtain body where "reg_ops_set_control_regs rops c dev' tr2 = tr2 @ body
      @ enable_tail c rops (va dev')
          (CTRL0_ENABLE (vals c) OR CTRL0_INTERRUPT_ENABLE (vals c)
            OR (if is_version c dev' (S2MPU_VERSION_2 (vals c))
                then CTRL0_FAULT_RESP_TYPE_DECERR (vals c)
                else CTRL0_FAULT_RESP_TYPE_SLVERR (vals c)))"
    using reg_ops_set_control_regs_trace by blast
  ultimately have "tr' = tr1 @ init_with_prot mops (va dev) prt
      @ (Writel (va dev + REG_NS_ALL_INVALIDATION (regs c)) (INVALIDATION_INVALIDATE (vals c))
           # mid @ body)
      @ enable_tail c rops (va dev)
          (CTRL0_ENABLE (vals c) OR CTRL0_INTERRUPT_ENABLE (vals c)
            OR (if is_version c dev' (S2MPU_VERSION_2 (vals c))
                then CTRL0_FAULT_RESP_TYPE_DECERR (vals c)
                else CTRL0_FAULT_RESP_TYPE_SLVERR (vals c)))"
    using t va by simp
  with i show ?thesis
    by blast
qed

text \<open>The version init of a v2 or v9 device ends with the store of the context
  configuration, and that store is its only one.\<close>

lemma reg_ops_init_context_cfg:
  assumes "reg_ops_init rops c e dev tr = Some (0, dev', tr1)"
    and "rops = ops_v9 \<or> (is_version c dev' (S2MPU_VERSION_2 (vals c))
           \<and> S2MPU_VERSION_1 (vals c) \<noteq> S2MPU_VERSION_2 (vals c))"
  shows "\<exists>pre cfg. (\<forall>ev \<in> set pre. is_load ev) \<and> cfg \<noteq> 0
           \<and> tr1 = tr @ pre @ [Writel (va dev + REG_NS_CONTEXT_CFG_VALID_VID (regs c)) cfg]"
proof (cases rops)
  case ops_v9
  with assms(1) show ?thesis
    using initialize_v2_ok [of c e dev tr dev' tr1] by simp
next
  case ops_v1_v2
  with assms(2) have v2: "is_version c dev' (S2MPU_VERSION_2 (vals c))"
    and ne: "S2MPU_VERSION_1 (vals c) \<noteq> S2MPU_VERSION_2 (vals c)"
    by auto
  then have "\<not> is_version c dev' (S2MPU_VERSION_1 (vals c))"
    by (auto simp: is_version_def)
  with ops_v1_v2 assms(1) show ?thesis
    using initialize_ok [of c e dev tr dev' tr1] by auto
qed

lemma wait_while_idle:
  "readl_relaxed e tr a AND m \<noteq> m \<Longrightarrow>
     wait_while e a m tr = Some (tr @ [Readl a (readl_relaxed e tr a)])"
  by (subst wait_while.simps) simp

lemma sample_v1_ne_v2: "S2MPU_VERSION_1 (vals sample_hdr) \<noteq> S2MPU_VERSION_2 (vals sample_hdr)"
  by (simp add: sample_defs)

text \<open>A v2 device with no children and an idle \<^verbatim>\<open>STATUS\<close>: the whole resume.\<close>

lemma sample_resume_v2:
  "s2mpu_resume sample_hdr (sample_env (sample_rd 0x20000000 8) donate_ok) sample_mpt_ops ops_v1_v2
      (zero_mpt sample_hdr) (sample_dev 0 0 []) []
   = Some (0, sample_dev 0x20000000 0xFEDCBA98 [],
       [Readl 0x10060 0x20000000, Readl 0x10100 8, Writel 0x10104 0xFEDCBA98, Writel 0x14004 3,
        Writel 0x11000 1, Readl 0x10068 0, Writel 0x10020 0xff, Writel 0x10010 0,
        Writel 0x10004 0, Writel 0x10000 0xb])"
proof -
  have i: "initialize sample_hdr (sample_env (sample_rd 0x20000000 8) donate_ok)
      (sample_dev 0 0 []) []
    = Some (0, sample_dev 0x20000000 0xFEDCBA98 [],
        [Readl 0x10060 0x20000000, Readl 0x10100 8, Writel 0x10104 0xFEDCBA98])"
    by code_simp
  have m: "init_with_mpt sample_mpt_ops (va (sample_dev 0x20000000 0xFEDCBA98 [])) hm
      = [Writel 0x14004 3]" for hm
    by (simp add: sample_mpt_ops_def sample_dev_def)
  have v2: "is_version sample_hdr (sample_dev 0x20000000 0xFEDCBA98 [])
      (S2MPU_VERSION_2 (vals sample_hdr))"
    by (simp add: sample_dev_version) (simp add: sample_defs)
  have r: "readl_relaxed (sample_env (sample_rd 0x20000000 8) donate_ok) tr 0x10068 = 0" for tr
    by (simp add: sample_env_def sample_rd_def)
  have a: "all_invalidation sample_hdr (sample_env (sample_rd 0x20000000 8) donate_ok)
      (sample_dev 0x20000000 0xFEDCBA98 [])
      [Readl 0x10060 0x20000000, Readl 0x10100 8, Writel 0x10104 0xFEDCBA98, Writel 0x14004 3]
    = Some [Readl 0x10060 0x20000000, Readl 0x10100 8, Writel 0x10104 0xFEDCBA98, Writel 0x14004 3,
        Writel 0x11000 1, Readl 0x10068 0]"
    unfolding all_invalidation_def invalidation_barrier_complete_def Let_def
      sample_status_addr sample_status_mask sample_no_children barrier_init_trace
    using v2 by (simp add: wait_while_idle r) (simp add: sample_dev_def sample_defs writel_def)
  have s: "set_control_regs sample_hdr (sample_dev 0x20000000 0xFEDCBA98 [])
      [Readl 0x10060 0x20000000, Readl 0x10100 8, Writel 0x10104 0xFEDCBA98, Writel 0x14004 3,
        Writel 0x11000 1, Readl 0x10068 0]
    = [Readl 0x10060 0x20000000, Readl 0x10100 8, Writel 0x10104 0xFEDCBA98, Writel 0x14004 3,
        Writel 0x11000 1, Readl 0x10068 0, Writel 0x10020 0xff, Writel 0x10010 0,
        Writel 0x10004 0, Writel 0x10000 0xb]"
    by code_simp
  show ?thesis
    unfolding s2mpu_resume_def initialize_with_mpt_def by (simp add: i m a s)
qed

text \<open>A v9 device with no children: the whole resume.\<close>

lemma sample_resume_v9:
  "s2mpu_resume sample_hdr (sample_env (sample_rd 0x90000000 8) donate_ok) sample_mpt_ops ops_v9
      (zero_mpt sample_hdr) (sample_dev 0 0 []) []
   = Some (0, sample_dev 0 0xFEDCBA98 [],
       [Readl 0x10100 8, Writel 0x10104 0xFEDCBA98, Writel 0x14004 3,
        Writel 0x11000 1, Writel 0x10030 0xff, Writel 0x10020 0xff, Writel 0x10000 0,
        Writel 0x10050 0xff, Writel 0x10014 0])"
  by code_simp

text \<open>Under \<^verbatim>\<open>ops_v9\<close> the init is \<^verbatim>\<open>__initialize_v2\<close>, which never loads
  \<^verbatim>\<open>VERSION\<close>: the cached version of the device stays what it was. In
  \<open>sample_resume_v9\<close> it stays \<open>0\<close>, and no load of \<^verbatim>\<open>STATUS\<close> (at \<open>0x10068\<close>)
  is made.\<close>

lemma initialize_v2_keeps_version:
  assumes "initialize_v2 c e dev tr = Some (r, dev', tr')"
  shows "version (data dev') = version (data dev)"
  using assms context_cfg_frame [of c e dev "ALL_VIDS_BITMAP (vals c)" tr]
  by (auto simp: initialize_v2_def split: option.splits if_splits)

subsection \<open>The context configuration\<close>

declare context_cfg_loop.simps [simp del]

lemma ffs_props:
  assumes "w \<noteq> 0"
  shows "ffs w < 32" and "bit w (ffs w)" and "\<forall>i < ffs w. \<not> bit w i"
proof -
  from assms obtain i where i: "bit w i"
    by (auto simp: bit_eq_iff)
  then have "i < 32"
    using bit_imp_le_length [of w i] by simp
  with i have ex: "\<exists>x \<in> set [0..<32]. \<not> \<not> bit w x"
    by auto
  have "takeWhile (\<lambda>i. \<not> bit w i) [0..<32] \<noteq> [0..<32]"
    using ex unfolding takeWhile_eq_all_conv by blast
  moreover have "takeWhile (\<lambda>i. \<not> bit w i) [0..<32]
      = take (length (takeWhile (\<lambda>i. \<not> bit w i) [0..<32])) [0..<32]"
    by (rule takeWhile_eq_take)
  ultimately have "length (takeWhile (\<lambda>i. \<not> bit w i) [0..<32]) \<noteq> length [0..<32]"
    by (metis take_all order_refl)
  then have len: "length (takeWhile (\<lambda>i. \<not> bit w i) [0..<32]) < length [0..<32]"
    using length_takeWhile_le [of "\<lambda>i. \<not> bit w i" "[0..<32]"] by linarith
  then show l: "ffs w < 32"
    by (simp add: ffs_def)
  from nth_length_takeWhile [OF len] l show "bit w (ffs w)"
    by (simp add: ffs_def)
  show "\<forall>i < ffs w. \<not> bit w i"
  proof (intro allI impI)
    fix j assume j: "j < ffs w"
    then have jl: "j < length (takeWhile (\<lambda>i. \<not> bit w i) [0..<32])"
      by (simp add: ffs_def)
    then have "takeWhile (\<lambda>i. \<not> bit w i) [0..<32] ! j \<in> set (takeWhile (\<lambda>i. \<not> bit w i) [0..<32])"
      by (rule nth_mem)
    moreover have "takeWhile (\<lambda>i. \<not> bit w i) [0..<32] ! j = j"
      using takeWhile_nth [OF jl] j l by simp
    ultimately show "\<not> bit w j"
      using set_takeWhileD by fastforce
  qed
qed

lemma set_bits_zero: "set_bits 0 = []"
  by (simp add: set_bits_def)

lemma set_bits_step:
  assumes "w \<noteq> 0"
  shows "set_bits w = ffs w # set_bits (w AND NOT (push_bit (ffs w) 1))"
proof -
  define j where "j = ffs w"
  define w' where "w' = w AND NOT (push_bit j 1)"
  have j: "j < 32" "bit w j" "\<forall>i < j. \<not> bit w i"
    using ffs_props [OF assms] by (simp_all add: j_def)
  have b: "bit w' i \<longleftrightarrow> bit w i \<and> i \<noteq> j" for i
    by (auto simp: w'_def bit_simps dest: bit_imp_le_length)
  have "[0..<32] = [0..<j] @ [j..<32]"
    using j(1) upt_add_eq_append [of 0 j "32 - j"] by simp
  moreover have "[j..<32] = j # [Suc j..<32]"
    using j(1) by (rule upt_conv_Cons)
  ultimately have split: "[0..<32] = [0..<j] @ [j] @ [Suc j..<32]"
    by simp
  have lo: "filter (bit w) [0..<j] = []" "filter (bit w') [0..<j] = []"
    using j(3) by (auto simp: filter_empty_conv b)
  have hi: "filter (bit w') [Suc j..<32] = filter (bit w) [Suc j..<32]"
    by (rule filter_cong) (auto simp: b)
  have "set_bits w = j # filter (bit w) [Suc j..<32]"
    unfolding set_bits_def by (subst split) (simp add: lo j(2))
  moreover have "set_bits w' = filter (bit w) [Suc j..<32]"
    unfolding set_bits_def by (subst split) (simp add: lo hi b)
  ultimately show ?thesis
    by (simp add: j_def w'_def)
qed

lemma context_cfg_loop_eq:
  assumes "ctx \<le> length cv"
  shows "context_cfg_loop w n ctx cv =
     (let k = min (n - ctx) (length (set_bits w)) in
      if ctx + k \<le> length cv
      then Some (ctx + k, take ctx cv @ map of_nat (take k (set_bits w)) @ drop (ctx + k) cv)
      else None)"
  using assms
proof (induction w n ctx cv rule: context_cfg_loop.induct)
  case (1 w n ctx cv)
  show ?case
  proof (cases "w = 0")
    case True
    then show ?thesis
      using "1.prems" by (simp add: context_cfg_loop.simps [of 0 n ctx cv] set_bits_zero)
  next
    case nz: False
    show ?thesis
    proof (cases "ctx \<ge> n")
      case True
      then show ?thesis
        using nz "1.prems" by (simp add: context_cfg_loop.simps [of w n ctx cv])
    next
      case lt: False
      define j where "j = ffs w"
      define w' where "w' = w AND NOT (push_bit j 1)"
      have sb: "set_bits w = j # set_bits w'"
        using set_bits_step [OF nz] by (simp add: j_def w'_def)
      have k: "min (n - ctx) (length (set_bits w)) = Suc (min (n - (ctx + 1)) (length (set_bits w')))"
        using lt unfolding sb by (auto simp: min_def)
      show ?thesis
      proof (cases "ctx < length cv")
        case False
        have "context_cfg_loop w n ctx cv = None"
          using nz lt False by (subst context_cfg_loop.simps) simp
        then show ?thesis
          unfolding k Let_def using False by simp
      next
        case True
        have eq: "context_cfg_loop w n ctx cv = context_cfg_loop w' n (ctx + 1) (cv[ctx := of_nat j])"
          using nz lt True by (simp add: context_cfg_loop.simps [of w n ctx cv] j_def w'_def)
        have ih: "context_cfg_loop w' n (ctx + 1) (cv[ctx := of_nat j]) =
            (let k = min (n - (ctx + 1)) (length (set_bits w')) in
             if ctx + 1 + k \<le> length (cv[ctx := of_nat j])
             then Some (ctx + 1 + k, take (ctx + 1) (cv[ctx := of_nat j])
                        @ map of_nat (take k (set_bits w')) @ drop (ctx + 1 + k) (cv[ctx := of_nat j]))
             else None)"
          using "1.IH" [OF nz _ True] lt True unfolding j_def w'_def by simp
        have tk: "take (Suc ctx) (cv[ctx := x]) = take ctx cv @ [x]" for x :: u8
          using True by (simp add: take_Suc_conv_app_nth)
        show ?thesis
          unfolding eq ih k Let_def by (simp add: tk sb)
      qed
    qed
  qed
qed


lemma context_cfg_computed:
  assumes "context_cfg_valid_vid (data dev) = 0"
    and "k = min (unat (readl_relaxed e tr (va dev + REG_NS_NUM_CONTEXT (regs c))
                        AND NUM_CONTEXT_MASK (vals c)))
                 (length (set_bits b))"
    and "k \<le> NR_CTX_IDS"
  shows "context_cfg_valid_vid_fn c e dev b tr =
     Some (context_cfg_res c k (map of_nat (take k (set_bits b)) @ replicate (NR_CTX_IDS - k) 0),
           dev\<lparr>data := (data dev)\<lparr>context_cfg_valid_vid :=
             context_cfg_res c k (map of_nat (take k (set_bits b)) @ replicate (NR_CTX_IDS - k) 0)\<rparr>\<rparr>,
           tr @ [Readl (va dev + REG_NS_NUM_CONTEXT (regs c))
                   (readl_relaxed e tr (va dev + REG_NS_NUM_CONTEXT (regs c)))])"
proof -
  have "context_cfg_loop b (unat (readl_relaxed e tr (va dev + REG_NS_NUM_CONTEXT (regs c))
                        AND NUM_CONTEXT_MASK (vals c))) 0 (replicate NR_CTX_IDS 0)
      = Some (k, map of_nat (take k (set_bits b)) @ replicate (NR_CTX_IDS - k) 0)"
    using assms(2,3) by (simp add: context_cfg_loop_eq Let_def)
  then show ?thesis
    using assms(1) by (simp add: context_cfg_valid_vid_fn_def Let_def)
qed

lemma context_cfg_cached:
  assumes "context_cfg_valid_vid (data dev) \<noteq> 0"
  shows "context_cfg_valid_vid_fn c e dev b tr = Some (context_cfg_valid_vid (data dev), dev, tr)"
  using assms by (simp add: context_cfg_valid_vid_fn_def)

text \<open>
  C10, as the code has it. With nothing cached, the computation loads \<^verbatim>\<open>NUM_CONTEXT\<close>
  once and gives the context slots \<open>0, 1, \<dots>, k - 1\<close> to the \<open>k\<close> lowest VIDs whose bits
  are set in the bitmap (VID 0 among them), in ascending order, where \<open>k\<close> is the smaller
  of the hardware's context count and the number of set bits; the other slots carry VID
  \<open>0\<close> and no valid bit. The result is stored in the device data. A result that is not
  zero is what every later call returns, for any bitmap, with no access at all. The
  version init returns \<^verbatim>\<open>-EINVAL\<close> without a store exactly when the result is zero, as
  it is when no context can be allocated (the VID field of VID \<open>0\<close> being empty);
  otherwise it stores the result to \<^verbatim>\<open>CONTEXT_CFG_VALID_VID\<close>.
\<close>

theorem context_cfg_valid_vid_assignment:
  assumes "context_cfg_valid_vid (data dev) = 0"
    and "k = min (unat (readl_relaxed e tr (va dev + REG_NS_NUM_CONTEXT (regs c))
                        AND NUM_CONTEXT_MASK (vals c)))
                 (length (set_bits b))"
    and "k \<le> NR_CTX_IDS"
    and "res = context_cfg_res c k (map of_nat (take k (set_bits b)) @ replicate (NR_CTX_IDS - k) 0)"
    and "dev1 = dev\<lparr>data := (data dev)\<lparr>context_cfg_valid_vid := res\<rparr>\<rparr>"
    and "tr1 = tr @ [Readl (va dev + REG_NS_NUM_CONTEXT (regs c))
                       (readl_relaxed e tr (va dev + REG_NS_NUM_CONTEXT (regs c)))]"
  shows "context_cfg_valid_vid_fn c e dev b tr = Some (res, dev1, tr1)
         \<and> (res \<noteq> 0 \<longrightarrow>
              (\<forall>b2 tr2. context_cfg_valid_vid_fn c e dev1 b2 tr2 = Some (res, dev1, tr2)))
         \<and> (b = ALL_VIDS_BITMAP (vals c) \<longrightarrow>
              initialize_v2 c e dev tr =
                (if res = 0 then Some (- EINVAL, dev1, tr1)
                 else Some (0, dev1,
                        tr1 @ [Writel (va dev + REG_NS_CONTEXT_CFG_VALID_VID (regs c)) res])))
         \<and> (k = 0 \<and> (\<forall>i < NR_CTX_IDS. CONTEXT_CFG_VALID_VID_CTX_VID (vals c) i 0 = 0)
              \<longrightarrow> res = 0)"
proof (intro conjI impI)
  show first: "context_cfg_valid_vid_fn c e dev b tr = Some (res, dev1, tr1)"
    unfolding assms(4,5,6) using assms(1,2,3) by (rule context_cfg_computed)
  show "\<forall>b2 tr2. context_cfg_valid_vid_fn c e dev1 b2 tr2 = Some (res, dev1, tr2)" if "res \<noteq> 0"
    using that context_cfg_cached [of dev1 c e] by (simp add: assms(5))
  show "initialize_v2 c e dev tr =
      (if res = 0 then Some (- EINVAL, dev1, tr1)
       else Some (0, dev1, tr1 @ [Writel (va dev + REG_NS_CONTEXT_CFG_VALID_VID (regs c)) res]))"
    if "b = ALL_VIDS_BITMAP (vals c)"
    using first that by (simp add: initialize_v2_def writel_def assms(5))
  show "res = 0" if "k = 0 \<and> (\<forall>i < NR_CTX_IDS. CONTEXT_CFG_VALID_VID_CTX_VID (vals c) i 0 = 0)"
    using that by (simp add: assms(4) context_cfg_res_def CTX_CFG_ENTRY_def NR_CTX_IDS_def)
qed

lemma sample_set_bits: "set_bits 0xff = [0, 1, 2, 3, 4, 5, 6, 7]"
  by code_simp

theorem context_cfg_valid_vid_assignment_witness:
  "context_cfg_valid_vid_fn sample_hdr (sample_env (sample_rd 0x20000000 3) donate_ok)
      (sample_dev 0x20000000 0 []) 0xff []
     = Some (0xA98, sample_dev 0x20000000 0xA98 [], [Readl 0x10100 3])
   \<and> context_cfg_valid_vid_fn sample_hdr (sample_env (sample_rd 0x20000000 3) donate_ok)
      (sample_dev 0x20000000 0xA98 []) 0xff [Readl 0x10100 3]
     = Some (0xA98, sample_dev 0x20000000 0xA98 [], [Readl 0x10100 3])
   \<and> initialize_v2 sample_hdr (sample_env (sample_rd 0x20000000 3) donate_ok)
      (sample_dev 0x20000000 0 []) []
     = Some (0, sample_dev 0x20000000 0xA98 [], [Readl 0x10100 3, Writel 0x10104 0xA98])"
proof -
  have h1: "context_cfg_valid_vid (data (sample_dev 0x20000000 0 [])) = 0"
    by (simp add: sample_dev_def)
  have h2: "3 = min (unat (readl_relaxed (sample_env (sample_rd 0x20000000 3) donate_ok) []
                         (va (sample_dev 0x20000000 0 []) + REG_NS_NUM_CONTEXT (regs sample_hdr))
                      AND NUM_CONTEXT_MASK (vals sample_hdr)))
                (length (set_bits 0xff))"
    by (simp add: sample_set_bits sample_env_def sample_rd_def sample_dev_def sample_defs)
  have h3: "3 \<le> NR_CTX_IDS"
    by (simp add: NR_CTX_IDS_def)
  have h4: "0xA98 = context_cfg_res sample_hdr 3
      (map of_nat (take 3 (set_bits 0xff)) @ replicate (NR_CTX_IDS - 3) 0)"
    unfolding sample_set_bits by code_simp
  have h5: "sample_dev 0x20000000 0xA98 [] = (sample_dev 0x20000000 0 [])
      \<lparr>data := (data (sample_dev 0x20000000 0 []))\<lparr>context_cfg_valid_vid := 0xA98\<rparr>\<rparr>"
    by (simp add: sample_dev_def)
  have h6: "[Readl 0x10100 3] = [] @ [Readl (va (sample_dev 0x20000000 0 [])
                                            + REG_NS_NUM_CONTEXT (regs sample_hdr))
      (readl_relaxed (sample_env (sample_rd 0x20000000 3) donate_ok) []
         (va (sample_dev 0x20000000 0 []) + REG_NS_NUM_CONTEXT (regs sample_hdr)))]"
    by (simp add: sample_env_def sample_rd_def sample_dev_def sample_defs)
  have all: "(0xff :: u32) = ALL_VIDS_BITMAP (vals sample_hdr)"
    by (simp add: sample_defs)
  have a: "va (sample_dev 0x20000000 0 []) + REG_NS_CONTEXT_CFG_VALID_VID (regs sample_hdr) = 0x10104"
    by (simp add: sample_dev_def sample_defs)
  show ?thesis
    using context_cfg_valid_vid_assignment [OF h1 h2 h3 h4 h5 h6] all a
    by simp
qed

text \<open>A device that reports no context at first: the first call computes \<open>0\<close> and
  stores it; the second call, on the device and the trace that the first one left, loads
  \<^verbatim>\<open>NUM_CONTEXT\<close> again, computes again and returns another value.\<close>

theorem context_cfg_valid_vid_assignment_counterexample:
  "context_cfg_valid_vid_fn sample_hdr env_ctx_late (sample_dev 0x90000000 0 []) 0xff []
     = Some (0, sample_dev 0x90000000 0 [], [Readl 0x10100 0])
   \<and> context_cfg_valid_vid_fn sample_hdr env_ctx_late (sample_dev 0x90000000 0 []) 0xff
        [Readl 0x10100 0]
     = Some (0xFEDCBA98, sample_dev 0x90000000 0xFEDCBA98 [], [Readl 0x10100 0, Readl 0x10100 8])"
  by code_simp

subsection \<open>Bring-up: the order of the accesses\<close>

lemma reg_ops_set_control_regs_exact:
  "reg_ops_set_control_regs rops c dev tr = tr @ control_stores c rops dev"
  by (cases rops)
     (simp_all add: set_control_regs_def set_control_regs_v9_def Let_def writel_def or.assoc)

lemma reg_ops_init_children:
  assumes "reg_ops_init rops c e dev tr = Some (0, dev', tr')"
  shows "children dev' = children dev"
  using assms initialize_ok [of c e dev tr dev' tr'] initialize_v2_ok [of c e dev tr dev' tr']
  by (cases rops) simp_all

lemma all_invalidation_unfold:
  "all_invalidation c e dev tr =
     invalidation_barrier_complete c e dev
       (tr @ [Writel (va dev + REG_NS_ALL_INVALIDATION (regs c)) (INVALIDATION_INVALIDATE (vals c))]
           @ map (\<lambda>sync. Writel (sync + REG_NS_SYNC_CMD (regs c)) (SYNC_CMD_SYNC (vals c)))
               (children dev))"
  by (simp add: all_invalidation_def barrier_init_trace writel_def)

text \<open>A successful bring-up, access by access: the version init, the events \<open>evs\<close> of the
  page-table encoder, the store to \<^verbatim>\<open>ALL_INVALIDATION\<close>, one \<^verbatim>\<open>SYNC_CMD\<close> store per
  child, what the wait for the invalidation adds, and the stores of the control registers.\<close>

lemma bringup_exact:
  assumes i: "reg_ops_init rops c e dev tr = Some (0, dev', tr1)"
    and a: "all_invalidation c e dev' (tr1 @ evs) = Some tr2"
    and t: "tr' = reg_ops_set_control_regs rops c dev' tr2"
    and v: "rops = ops_v9 \<or> (is_version c dev' (S2MPU_VERSION_2 (vals c))
             \<and> S2MPU_VERSION_1 (vals c) \<noteq> S2MPU_VERSION_2 (vals c))"
  shows "va dev' = va dev \<and> children dev' = children dev
         \<and> (\<exists>pre cfg bar. (\<forall>ev \<in> set pre. is_load ev) \<and> cfg \<noteq> 0
               \<and> invalidation_barrier_complete c e dev' (bringup_head c dev tr pre cfg evs)
                   = Some (bringup_head c dev tr pre cfg evs @ bar)
               \<and> tr' = bringup_head c dev tr pre cfg evs @ bar @ control_stores c rops dev')"
proof -
  have va: "va dev' = va dev" and ch: "children dev' = children dev"
    using reg_ops_init_va [OF i] reg_ops_init_children [OF i] by simp_all
  from reg_ops_init_context_cfg [OF i v] obtain pre cfg where
    p: "\<forall>ev \<in> set pre. is_load ev" and nz: "cfg \<noteq> 0"
    and tr1: "tr1 = tr @ pre @ [Writel (va dev + REG_NS_CONTEXT_CFG_VALID_VID (regs c)) cfg]"
    by blast
  have h: "(tr1 @ evs)
      @ [Writel (va dev' + REG_NS_ALL_INVALIDATION (regs c)) (INVALIDATION_INVALIDATE (vals c))]
      @ map (\<lambda>sync. Writel (sync + REG_NS_SYNC_CMD (regs c)) (SYNC_CMD_SYNC (vals c)))
          (children dev')
    = bringup_head c dev tr pre cfg evs"
    by (simp add: bringup_head_def tr1 va ch)
  from a have b: "invalidation_barrier_complete c e dev' (bringup_head c dev tr pre cfg evs) = Some tr2"
    unfolding all_invalidation_unfold h .
  from barrier_complete_ext [OF b] obtain bar where
    tr2: "tr2 = bringup_head c dev tr pre cfg evs @ bar"
    by blast
  have "tr' = bringup_head c dev tr pre cfg evs @ bar @ control_stores c rops dev'"
    unfolding t reg_ops_set_control_regs_exact tr2 by simp
  with p nz b tr2 va ch show ?thesis
    by blast
qed

text \<open>A v2 device with one child, whose \<^verbatim>\<open>SYNC_CMD\<close> register is at \<open>0x20000\<close> and whose
  \<^verbatim>\<open>SYNC_COMP\<close> register, at \<open>0x20004\<close>, reads complete; the \<^verbatim>\<open>STATUS\<close> of the device is
  idle. The invalidation, then the whole resume and the whole suspend.\<close>

lemma sample_child_invalidation:
  "all_invalidation sample_hdr (sample_env (sample_rd_child 0x20000000 8) donate_ok)
      (sample_dev 0x20000000 cfg [0x20000]) T
   = Some (T @ [Writel 0x11000 1, Writel 0x20000 1, Readl 0x20004 1, Readl 0x10068 0])"
proof -
  have v2: "is_version sample_hdr (sample_dev 0x20000000 cfg [0x20000])
      (S2MPU_VERSION_2 (vals sample_hdr))"
    by (simp add: sample_dev_version) (simp add: sample_defs)
  have k: "barrier_complete_children sample_hdr
      (sample_env (sample_rd_child 0x20000000 8) donate_ok)
      (sample_dev 0x20000000 cfg [0x20000]) T' = T' @ [Readl 0x20004 1]" for T'
    by (simp add: barrier_complete_children_def barrier_complete_child_def sample_dev_def
        sample_env_def sample_rd_child_def sample_defs)
  have r: "readl_relaxed (sample_env (sample_rd_child 0x20000000 8) donate_ok) tr 0x10068 = 0"
    for tr
    by (simp add: sample_env_def sample_rd_child_def sample_rd_def)
  have h: "T @ [Writel (va (sample_dev 0x20000000 cfg [0x20000])
                   + REG_NS_ALL_INVALIDATION (regs sample_hdr))
                  (INVALIDATION_INVALIDATE (vals sample_hdr))]
        @ map (\<lambda>sync. Writel (sync + REG_NS_SYNC_CMD (regs sample_hdr))
                        (SYNC_CMD_SYNC (vals sample_hdr)))
            (children (sample_dev 0x20000000 cfg [0x20000]))
      = T @ [Writel 0x11000 1, Writel 0x20000 1]"
    by (simp add: sample_dev_def sample_defs)
  show ?thesis
    unfolding all_invalidation_unfold h invalidation_barrier_complete_def Let_def
      sample_status_addr sample_status_mask k
    using v2 by (simp add: wait_while_idle r)
qed

lemma sample_child_initialize:
  "initialize sample_hdr (sample_env (sample_rd_child 0x20000000 8) donate_ok)
      (sample_dev 0 0 [0x20000]) []
    = Some (0, sample_dev 0x20000000 0xFEDCBA98 [0x20000],
        [Readl 0x10060 0x20000000, Readl 0x10100 8, Writel 0x10104 0xFEDCBA98])"
  by code_simp

lemma sample_child_set_control_regs:
  "set_control_regs sample_hdr (sample_dev 0x20000000 0xFEDCBA98 [0x20000]) T
    = T @ [Writel 0x10020 0xff, Writel 0x10010 0, Writel 0x10004 0, Writel 0x10000 0xb]"
proof -
  have "control_stores sample_hdr ops_v1_v2 (sample_dev 0x20000000 0xFEDCBA98 [0x20000])
      = [Writel 0x10020 0xff, Writel 0x10010 0, Writel 0x10004 0, Writel 0x10000 0xb]"
    by code_simp
  then show ?thesis
    using reg_ops_set_control_regs_exact
      [of ops_v1_v2 sample_hdr "sample_dev 0x20000000 0xFEDCBA98 [0x20000]" T]
    by simp
qed

lemma sample_resume_v2_child:
  "s2mpu_resume sample_hdr (sample_env (sample_rd_child 0x20000000 8) donate_ok) sample_mpt_ops
      ops_v1_v2 (zero_mpt sample_hdr) (sample_dev 0 0 [0x20000]) []
   = Some (0, sample_dev 0x20000000 0xFEDCBA98 [0x20000],
       [Readl 0x10060 0x20000000, Readl 0x10100 8, Writel 0x10104 0xFEDCBA98, Writel 0x14004 3,
        Writel 0x11000 1, Writel 0x20000 1, Readl 0x20004 1, Readl 0x10068 0,
        Writel 0x10020 0xff, Writel 0x10010 0, Writel 0x10004 0, Writel 0x10000 0xb])"
proof -
  have m: "init_with_mpt sample_mpt_ops (va (sample_dev 0x20000000 0xFEDCBA98 [0x20000])) hm
      = [Writel 0x14004 3]" for hm
    by (simp add: sample_mpt_ops_def sample_dev_def)
  show ?thesis
    unfolding s2mpu_resume_def initialize_with_mpt_def
    by (simp add: sample_child_initialize m sample_child_invalidation
        sample_child_set_control_regs)
qed

lemma sample_suspend_v2_child:
  "s2mpu_suspend sample_hdr (sample_env (sample_rd_child 0x20000000 8) donate_ok) sample_mpt_ops
      ops_v1_v2 (sample_dev 0 0 [0x20000]) []
   = Some (0, sample_dev 0x20000000 0xFEDCBA98 [0x20000],
       [Readl 0x10060 0x20000000, Readl 0x10100 8, Writel 0x10104 0xFEDCBA98, Writel 0x14004 0,
        Writel 0x11000 1, Writel 0x20000 1, Readl 0x20004 1, Readl 0x10068 0,
        Writel 0x10020 0xff, Writel 0x10010 0, Writel 0x10004 0, Writel 0x10000 0xb])"
proof -
  have m: "init_with_prot sample_mpt_ops (va (sample_dev 0x20000000 0xFEDCBA98 [0x20000]))
      (MPT_PROT_NONE (vals sample_hdr)) = [Writel 0x14004 0]"
    by (simp add: sample_mpt_ops_def sample_dev_def sample_defs)
  show ?thesis
    unfolding s2mpu_suspend_def initialize_with_prot_def
    by (simp add: sample_child_initialize m sample_child_invalidation
        sample_child_set_control_regs)
qed

text \<open>The suspend of a v1 device and of a v9 device, both without children.\<close>

lemma sample_suspend_v1:
  "s2mpu_suspend sample_hdr (sample_env (sample_rd 0x11000000 8) donate_ok) sample_mpt_ops
      ops_v1_v2 (sample_dev 0 0 []) []
   = Some (0, sample_dev 0x11000000 0 [],
       [Readl 0x10060 0x11000000, Writel 0x14004 0, Writel 0x11000 1,
        Writel 0x10020 0xff, Writel 0x10010 0, Writel 0x10004 0, Writel 0x10000 0x7])"
  by code_simp

lemma sample_suspend_v9:
  "s2mpu_suspend sample_hdr (sample_env (sample_rd 0x90000000 8) donate_ok) sample_mpt_ops ops_v9
      (sample_dev 0 0 []) []
   = Some (0, sample_dev 0 0xFEDCBA98 [],
       [Readl 0x10100 8, Writel 0x10104 0xFEDCBA98, Writel 0x14004 0,
        Writel 0x11000 1, Writel 0x10030 0xff, Writel 0x10020 0xff, Writel 0x10000 0,
        Writel 0x10050 0xff, Writel 0x10014 0])"
  by code_simp


text \<open>
  C2, as the code has it. Take a successful resume or suspend under \<^verbatim>\<open>ops_v9\<close>, or
  under \<^verbatim>\<open>ops_v1_v2\<close> on a device whose version is v2. Its trace is, in this order:
  loads only; the store of the context configuration, which is not zero; the events of
  the page-table encoder (\<^verbatim>\<open>init_with_mpt\<close> with \<^verbatim>\<open>host_mpt\<close>, respectively
  \<^verbatim>\<open>init_with_prot\<close> with \<^verbatim>\<open>MPT_PROT_NONE\<close>); the store to \<^verbatim>\<open>ALL_INVALIDATION\<close>
  and one \<^verbatim>\<open>SYNC_CMD\<close> store per child (these make up \<open>bringup_head\<close>); the accesses
  \<open>bar\<close> that \<^verbatim>\<open>__invalidation_barrier_complete\<close> adds; and the stores of
  \<open>control_stores\<close>, with nothing after them. So on v1/v2 the enabling store to
  \<^verbatim>\<open>CTRL0\<close> is the last access, and on v9 the enabling store to
  \<^verbatim>\<open>V9_CTRL_PROT_EN_PER_VID_SET\<close> is followed by exactly one more store, of \<open>0\<close> to
  \<^verbatim>\<open>V9_CFG_MPTW_ATTRIBUTE\<close>.
\<close>

theorem bringup_write_order:
  assumes "rops = ops_v9 \<or> (is_version c dev' (S2MPU_VERSION_2 (vals c))
             \<and> S2MPU_VERSION_1 (vals c) \<noteq> S2MPU_VERSION_2 (vals c))"
  shows "(s2mpu_resume c e mops rops hm dev tr = Some (0, dev', tr') \<longrightarrow>
            va dev' = va dev \<and> children dev' = children dev
            \<and> (\<exists>pre cfg bar. (\<forall>ev \<in> set pre. is_load ev) \<and> cfg \<noteq> 0
                 \<and> invalidation_barrier_complete c e dev'
                       (bringup_head c dev tr pre cfg (init_with_mpt mops (va dev) hm))
                     = Some (bringup_head c dev tr pre cfg (init_with_mpt mops (va dev) hm) @ bar)
                 \<and> tr' = bringup_head c dev tr pre cfg (init_with_mpt mops (va dev) hm) @ bar
                          @ control_stores c rops dev'))
         \<and> (s2mpu_suspend c e mops rops dev tr = Some (0, dev', tr') \<longrightarrow>
            va dev' = va dev \<and> children dev' = children dev
            \<and> (\<exists>pre cfg bar. (\<forall>ev \<in> set pre. is_load ev) \<and> cfg \<noteq> 0
                 \<and> invalidation_barrier_complete c e dev'
                       (bringup_head c dev tr pre cfg
                          (init_with_prot mops (va dev) (MPT_PROT_NONE (vals c))))
                     = Some (bringup_head c dev tr pre cfg
                               (init_with_prot mops (va dev) (MPT_PROT_NONE (vals c))) @ bar)
                 \<and> tr' = bringup_head c dev tr pre cfg
                            (init_with_prot mops (va dev) (MPT_PROT_NONE (vals c))) @ bar
                          @ control_stores c rops dev'))"
proof (intro conjI impI)
  assume "s2mpu_resume c e mops rops hm dev tr = Some (0, dev', tr')"
  then obtain tr1 tr2 where
    i: "reg_ops_init rops c e dev tr = Some (0, dev', tr1)"
    and a: "all_invalidation c e dev' (tr1 @ init_with_mpt mops (va dev') hm) = Some tr2"
    and t: "tr' = reg_ops_set_control_regs rops c dev' tr2"
    by (auto simp: s2mpu_resume_def initialize_with_mpt_def split: option.splits if_splits)
  have va: "va dev' = va dev"
    using reg_ops_init_va [OF i] .
  from bringup_exact [OF i a [unfolded va] t assms]
  show "va dev' = va dev"
    and "children dev' = children dev"
    and "\<exists>pre cfg bar. (\<forall>ev \<in> set pre. is_load ev) \<and> cfg \<noteq> 0
                 \<and> invalidation_barrier_complete c e dev'
                       (bringup_head c dev tr pre cfg (init_with_mpt mops (va dev) hm))
                     = Some (bringup_head c dev tr pre cfg (init_with_mpt mops (va dev) hm) @ bar)
                 \<and> tr' = bringup_head c dev tr pre cfg (init_with_mpt mops (va dev) hm) @ bar
                          @ control_stores c rops dev'"
    by blast+
next
  assume "s2mpu_suspend c e mops rops dev tr = Some (0, dev', tr')"
  then obtain tr1 tr2 where
    i: "reg_ops_init rops c e dev tr = Some (0, dev', tr1)"
    and a: "all_invalidation c e dev'
              (tr1 @ init_with_prot mops (va dev') (MPT_PROT_NONE (vals c))) = Some tr2"
    and t: "tr' = reg_ops_set_control_regs rops c dev' tr2"
    by (auto simp: s2mpu_suspend_def initialize_with_prot_def split: option.splits if_splits)
  have va: "va dev' = va dev"
    using reg_ops_init_va [OF i] .
  from bringup_exact [OF i a [unfolded va] t assms]
  show "va dev' = va dev"
    and "children dev' = children dev"
    and "\<exists>pre cfg bar. (\<forall>ev \<in> set pre. is_load ev) \<and> cfg \<noteq> 0
                 \<and> invalidation_barrier_complete c e dev'
                       (bringup_head c dev tr pre cfg
                          (init_with_prot mops (va dev) (MPT_PROT_NONE (vals c))))
                     = Some (bringup_head c dev tr pre cfg
                               (init_with_prot mops (va dev) (MPT_PROT_NONE (vals c))) @ bar)
                 \<and> tr' = bringup_head c dev tr pre cfg
                            (init_with_prot mops (va dev) (MPT_PROT_NONE (vals c))) @ bar
                          @ control_stores c rops dev'"
    by blast+
qed


theorem bringup_write_order_witness:
  "s2mpu_resume sample_hdr (sample_env (sample_rd_child 0x20000000 8) donate_ok) sample_mpt_ops
      ops_v1_v2 (zero_mpt sample_hdr) (sample_dev 0 0 [0x20000]) []
     = Some (0, sample_dev 0x20000000 0xFEDCBA98 [0x20000],
         [Readl 0x10060 0x20000000, Readl 0x10100 8, Writel 0x10104 0xFEDCBA98, Writel 0x14004 3,
          Writel 0x11000 1, Writel 0x20000 1, Readl 0x20004 1, Readl 0x10068 0,
          Writel 0x10020 0xff, Writel 0x10010 0, Writel 0x10004 0, Writel 0x10000 0xb])
   \<and> s2mpu_suspend sample_hdr (sample_env (sample_rd_child 0x20000000 8) donate_ok) sample_mpt_ops
      ops_v1_v2 (sample_dev 0 0 [0x20000]) []
     = Some (0, sample_dev 0x20000000 0xFEDCBA98 [0x20000],
         [Readl 0x10060 0x20000000, Readl 0x10100 8, Writel 0x10104 0xFEDCBA98, Writel 0x14004 0,
          Writel 0x11000 1, Writel 0x20000 1, Readl 0x20004 1, Readl 0x10068 0,
          Writel 0x10020 0xff, Writel 0x10010 0, Writel 0x10004 0, Writel 0x10000 0xb])
   \<and> is_version sample_hdr (sample_dev 0x20000000 0xFEDCBA98 [0x20000])
        (S2MPU_VERSION_2 (vals sample_hdr))
   \<and> bringup_head sample_hdr (sample_dev 0 0 [0x20000]) []
        [Readl 0x10060 0x20000000, Readl 0x10100 8] 0xFEDCBA98
        (init_with_mpt sample_mpt_ops (va (sample_dev 0 0 [0x20000])) (zero_mpt sample_hdr))
      = [Readl 0x10060 0x20000000, Readl 0x10100 8, Writel 0x10104 0xFEDCBA98, Writel 0x14004 3,
         Writel 0x11000 1, Writel 0x20000 1]
   \<and> bringup_head sample_hdr (sample_dev 0 0 [0x20000]) []
        [Readl 0x10060 0x20000000, Readl 0x10100 8] 0xFEDCBA98
        (init_with_prot sample_mpt_ops (va (sample_dev 0 0 [0x20000]))
           (MPT_PROT_NONE (vals sample_hdr)))
      = [Readl 0x10060 0x20000000, Readl 0x10100 8, Writel 0x10104 0xFEDCBA98, Writel 0x14004 0,
         Writel 0x11000 1, Writel 0x20000 1]
   \<and> control_stores sample_hdr ops_v1_v2 (sample_dev 0x20000000 0xFEDCBA98 [0x20000])
      = [Writel 0x10020 0xff, Writel 0x10010 0, Writel 0x10004 0, Writel 0x10000 0xb]
   \<and> (\<exists>pre cfg bar. (\<forall>ev \<in> set pre. is_load ev) \<and> cfg \<noteq> 0
        \<and> invalidation_barrier_complete sample_hdr
            (sample_env (sample_rd_child 0x20000000 8) donate_ok)
            (sample_dev 0x20000000 0xFEDCBA98 [0x20000])
            (bringup_head sample_hdr (sample_dev 0 0 [0x20000]) [] pre cfg
               (init_with_mpt sample_mpt_ops (va (sample_dev 0 0 [0x20000]))
                  (zero_mpt sample_hdr)))
           = Some (bringup_head sample_hdr (sample_dev 0 0 [0x20000]) [] pre cfg
                     (init_with_mpt sample_mpt_ops (va (sample_dev 0 0 [0x20000]))
                        (zero_mpt sample_hdr)) @ bar)
        \<and> [Readl 0x10060 0x20000000, Readl 0x10100 8, Writel 0x10104 0xFEDCBA98, Writel 0x14004 3,
            Writel 0x11000 1, Writel 0x20000 1, Readl 0x20004 1, Readl 0x10068 0,
            Writel 0x10020 0xff, Writel 0x10010 0, Writel 0x10004 0, Writel 0x10000 0xb]
           = bringup_head sample_hdr (sample_dev 0 0 [0x20000]) [] pre cfg
               (init_with_mpt sample_mpt_ops (va (sample_dev 0 0 [0x20000]))
                  (zero_mpt sample_hdr)) @ bar
             @ control_stores sample_hdr ops_v1_v2 (sample_dev 0x20000000 0xFEDCBA98 [0x20000]))
   \<and> (\<exists>pre cfg bar. (\<forall>ev \<in> set pre. is_load ev) \<and> cfg \<noteq> 0
        \<and> invalidation_barrier_complete sample_hdr
            (sample_env (sample_rd_child 0x20000000 8) donate_ok)
            (sample_dev 0x20000000 0xFEDCBA98 [0x20000])
            (bringup_head sample_hdr (sample_dev 0 0 [0x20000]) [] pre cfg
               (init_with_prot sample_mpt_ops (va (sample_dev 0 0 [0x20000]))
                  (MPT_PROT_NONE (vals sample_hdr))))
           = Some (bringup_head sample_hdr (sample_dev 0 0 [0x20000]) [] pre cfg
                     (init_with_prot sample_mpt_ops (va (sample_dev 0 0 [0x20000]))
                        (MPT_PROT_NONE (vals sample_hdr))) @ bar)
        \<and> [Readl 0x10060 0x20000000, Readl 0x10100 8, Writel 0x10104 0xFEDCBA98, Writel 0x14004 0,
            Writel 0x11000 1, Writel 0x20000 1, Readl 0x20004 1, Readl 0x10068 0,
            Writel 0x10020 0xff, Writel 0x10010 0, Writel 0x10004 0, Writel 0x10000 0xb]
           = bringup_head sample_hdr (sample_dev 0 0 [0x20000]) [] pre cfg
               (init_with_prot sample_mpt_ops (va (sample_dev 0 0 [0x20000]))
                  (MPT_PROT_NONE (vals sample_hdr))) @ bar
             @ control_stores sample_hdr ops_v1_v2 (sample_dev 0x20000000 0xFEDCBA98 [0x20000]))"
proof -
  have v2: "is_version sample_hdr (sample_dev 0x20000000 0xFEDCBA98 [0x20000])
      (S2MPU_VERSION_2 (vals sample_hdr))"
    by (simp add: sample_dev_version) (simp add: sample_defs)
  have h1: "bringup_head sample_hdr (sample_dev 0 0 [0x20000]) []
        [Readl 0x10060 0x20000000, Readl 0x10100 8] 0xFEDCBA98
        (init_with_mpt sample_mpt_ops (va (sample_dev 0 0 [0x20000])) (zero_mpt sample_hdr))
      = [Readl 0x10060 0x20000000, Readl 0x10100 8, Writel 0x10104 0xFEDCBA98, Writel 0x14004 3,
         Writel 0x11000 1, Writel 0x20000 1]"
    by code_simp
  have h2: "bringup_head sample_hdr (sample_dev 0 0 [0x20000]) []
        [Readl 0x10060 0x20000000, Readl 0x10100 8] 0xFEDCBA98
        (init_with_prot sample_mpt_ops (va (sample_dev 0 0 [0x20000]))
           (MPT_PROT_NONE (vals sample_hdr)))
      = [Readl 0x10060 0x20000000, Readl 0x10100 8, Writel 0x10104 0xFEDCBA98, Writel 0x14004 0,
         Writel 0x11000 1, Writel 0x20000 1]"
    by code_simp
  have cs: "control_stores sample_hdr ops_v1_v2 (sample_dev 0x20000000 0xFEDCBA98 [0x20000])
      = [Writel 0x10020 0xff, Writel 0x10010 0, Writel 0x10004 0, Writel 0x10000 0xb]"
    by code_simp
  note ord = bringup_write_order [OF disjI2 [OF conjI [OF v2 sample_v1_ne_v2]]]
  from ord [THEN conjunct1, THEN mp, OF sample_resume_v2_child]
    ord [THEN conjunct2, THEN mp, OF sample_suspend_v2_child]
  show ?thesis
    by (intro conjI sample_resume_v2_child sample_suspend_v2_child v2 h1 h2 cs) blast+
qed

text \<open>The resume and the suspend of a v9 device: the enabling store to
  \<^verbatim>\<open>V9_CTRL_PROT_EN_PER_VID_SET\<close> (at \<open>0x10050\<close>) is not the last access; the store to
  \<^verbatim>\<open>V9_CFG_MPTW_ATTRIBUTE\<close> (at \<open>0x10014\<close>) follows it.\<close>

theorem bringup_write_order_counterexample:
  "s2mpu_resume sample_hdr (sample_env (sample_rd 0x90000000 8) donate_ok) sample_mpt_ops ops_v9
      (zero_mpt sample_hdr) (sample_dev 0 0 []) []
     = Some (0, sample_dev 0 0xFEDCBA98 [],
         [Readl 0x10100 8, Writel 0x10104 0xFEDCBA98, Writel 0x14004 3,
          Writel 0x11000 1, Writel 0x10030 0xff, Writel 0x10020 0xff, Writel 0x10000 0,
          Writel 0x10050 0xff, Writel 0x10014 0])
   \<and> s2mpu_suspend sample_hdr (sample_env (sample_rd 0x90000000 8) donate_ok) sample_mpt_ops
      ops_v9 (sample_dev 0 0 []) []
     = Some (0, sample_dev 0 0xFEDCBA98 [],
         [Readl 0x10100 8, Writel 0x10104 0xFEDCBA98, Writel 0x14004 0,
          Writel 0x11000 1, Writel 0x10030 0xff, Writel 0x10020 0xff, Writel 0x10000 0,
          Writel 0x10050 0xff, Writel 0x10014 0])
   \<and> va (sample_dev 0 0 []) + REG_NS_V9_CTRL_PROT_EN_PER_VID_SET (regs9 sample_hdr) = 0x10050
   \<and> va (sample_dev 0 0 []) + REG_NS_V9_CFG_MPTW_ATTRIBUTE (regs9 sample_hdr) = 0x10014"
  using sample_resume_v9 sample_suspend_v9 by (simp add: sample_dev_def sample_defs)

text \<open>
  C4. After a successful resume or suspend the device is enabled. Under \<^verbatim>\<open>ops_v1_v2\<close>
  the last access is the store to \<^verbatim>\<open>CTRL0\<close>; its value has \<^verbatim>\<open>ENABLE\<close> and
  \<^verbatim>\<open>INTERRUPT_ENABLE\<close> set and is \<^verbatim>\<open>ENABLE | INTERRUPT_ENABLE | SLVERR\<close> on a v1
  device and \<^verbatim>\<open>ENABLE | INTERRUPT_ENABLE | DECERR\<close> on a v2 device. Under
  \<^verbatim>\<open>ops_v9\<close> the bring-up ends with the store of \<^verbatim>\<open>ALL_VIDS_BITMAP\<close> to
  \<^verbatim>\<open>V9_CTRL_PROT_EN_PER_VID_SET\<close> and the store to \<^verbatim>\<open>V9_CFG_MPTW_ATTRIBUTE\<close>.
\<close>

theorem bringup_leaves_device_enabled:
  assumes "s2mpu_resume c e mops rops hm dev tr = Some (0, dev', tr')
           \<or> s2mpu_suspend c e mops rops dev tr = Some (0, dev', tr')"
    and "S2MPU_VERSION_1 (vals c) \<noteq> S2MPU_VERSION_2 (vals c)"
  shows "case rops of
           ops_v1_v2 \<Rightarrow>
             (\<exists>body ctrl0. tr' = tr @ body @ [Writel (va dev + REG_NS_CTRL0 (regs c)) ctrl0]
                \<and> ctrl0 AND CTRL0_ENABLE (vals c) = CTRL0_ENABLE (vals c)
                \<and> ctrl0 AND CTRL0_INTERRUPT_ENABLE (vals c) = CTRL0_INTERRUPT_ENABLE (vals c)
                \<and> (is_version c dev' (S2MPU_VERSION_1 (vals c))
                    \<or> is_version c dev' (S2MPU_VERSION_2 (vals c)))
                \<and> (is_version c dev' (S2MPU_VERSION_1 (vals c)) \<longrightarrow>
                     ctrl0 = CTRL0_ENABLE (vals c) OR CTRL0_INTERRUPT_ENABLE (vals c)
                               OR CTRL0_FAULT_RESP_TYPE_SLVERR (vals c))
                \<and> (is_version c dev' (S2MPU_VERSION_2 (vals c)) \<longrightarrow>
                     ctrl0 = CTRL0_ENABLE (vals c) OR CTRL0_INTERRUPT_ENABLE (vals c)
                               OR CTRL0_FAULT_RESP_TYPE_DECERR (vals c)))
         | ops_v9 \<Rightarrow>
             (\<exists>body. tr' = tr @ body
                @ [Writel (va dev + REG_NS_V9_CTRL_PROT_EN_PER_VID_SET (regs9 c))
                     (ALL_VIDS_BITMAP (vals c)),
                   Writel (va dev + REG_NS_V9_CFG_MPTW_ATTRIBUTE (regs9 c)) 0])"
proof -
  define ctrl0 where "ctrl0 = CTRL0_ENABLE (vals c) OR CTRL0_INTERRUPT_ENABLE (vals c)
      OR (if is_version c dev' (S2MPU_VERSION_2 (vals c))
          then CTRL0_FAULT_RESP_TYPE_DECERR (vals c)
          else CTRL0_FAULT_RESP_TYPE_SLVERR (vals c))"
  from assms(1) obtain tr1 evs mid where
    i: "reg_ops_init rops c e dev tr = Some (0, dev', tr1)"
    and t: "tr' = tr1 @ evs @ mid @ enable_tail c rops (va dev) ctrl0"
    unfolding s2mpu_resume_def s2mpu_suspend_def ctrl0_def
    using initialize_with_mpt_ok [of c e mops rops dev hm tr dev' tr']
      initialize_with_prot_ok [of c e mops rops dev "MPT_PROT_NONE (vals c)" tr dev' tr']
    by blast
  show ?thesis
  proof (cases rops)
    case ops_v9
    with i obtain p where "tr1 = tr @ p"
      using initialize_v2_ok [of c e dev tr dev' tr1] by auto
    with t ops_v9 have "tr' = tr @ (p @ evs @ mid)
        @ [Writel (va dev + REG_NS_V9_CTRL_PROT_EN_PER_VID_SET (regs9 c)) (ALL_VIDS_BITMAP (vals c)),
           Writel (va dev + REG_NS_V9_CFG_MPTW_ATTRIBUTE (regs9 c)) 0]"
      by simp
    with ops_v9 show ?thesis
      by auto
  next
    case ops_v1_v2
    with i have ver: "is_version c dev' (S2MPU_VERSION_1 (vals c))
        \<or> is_version c dev' (S2MPU_VERSION_2 (vals c))"
      and "\<exists>p. tr1 = tr @ p"
      using initialize_ok [of c e dev tr dev' tr1] by auto
    then obtain p where "tr1 = tr @ p"
      by blast
    with t ops_v1_v2 have tr': "tr' = tr @ (p @ evs @ mid)
        @ [Writel (va dev + REG_NS_CTRL0 (regs c)) ctrl0]"
      by simp
    have en: "ctrl0 AND CTRL0_ENABLE (vals c) = CTRL0_ENABLE (vals c)"
      and ie: "ctrl0 AND CTRL0_INTERRUPT_ENABLE (vals c) = CTRL0_INTERRUPT_ENABLE (vals c)"
      unfolding ctrl0_def by (rule bit_word_eqI; auto simp: bit_simps)+
    have v1: "is_version c dev' (S2MPU_VERSION_1 (vals c)) \<longrightarrow>
        ctrl0 = CTRL0_ENABLE (vals c) OR CTRL0_INTERRUPT_ENABLE (vals c)
                  OR CTRL0_FAULT_RESP_TYPE_SLVERR (vals c)"
      using assms(2) by (auto simp: ctrl0_def is_version_def)
    have v2: "is_version c dev' (S2MPU_VERSION_2 (vals c)) \<longrightarrow>
        ctrl0 = CTRL0_ENABLE (vals c) OR CTRL0_INTERRUPT_ENABLE (vals c)
                  OR CTRL0_FAULT_RESP_TYPE_DECERR (vals c)"
      by (simp add: ctrl0_def)
    show ?thesis
      using ops_v1_v2 tr' en ie ver v1 v2 by auto
  qed
qed

theorem bringup_leaves_device_enabled_witness:
  "s2mpu_resume sample_hdr (sample_env (sample_rd 0x20000000 8) donate_ok) sample_mpt_ops ops_v1_v2
      (zero_mpt sample_hdr) (sample_dev 0 0 []) []
     = Some (0, sample_dev 0x20000000 0xFEDCBA98 [],
         [Readl 0x10060 0x20000000, Readl 0x10100 8, Writel 0x10104 0xFEDCBA98, Writel 0x14004 3,
          Writel 0x11000 1, Readl 0x10068 0, Writel 0x10020 0xff, Writel 0x10010 0,
          Writel 0x10004 0, Writel 0x10000 0xb])
   \<and> (\<exists>body ctrl0.
         [Readl 0x10060 0x20000000, Readl 0x10100 8, Writel 0x10104 0xFEDCBA98, Writel 0x14004 3,
          Writel 0x11000 1, Readl 0x10068 0, Writel 0x10020 0xff, Writel 0x10010 0,
          Writel 0x10004 0, Writel 0x10000 0xb]
           = [] @ body @ [Writel (va (sample_dev 0 0 []) + REG_NS_CTRL0 (regs sample_hdr)) ctrl0]
         \<and> ctrl0 AND CTRL0_ENABLE (vals sample_hdr) = CTRL0_ENABLE (vals sample_hdr)
         \<and> ctrl0 = CTRL0_ENABLE (vals sample_hdr) OR CTRL0_INTERRUPT_ENABLE (vals sample_hdr)
                     OR CTRL0_FAULT_RESP_TYPE_DECERR (vals sample_hdr))
   \<and> (\<exists>body.
         [Readl 0x10100 8, Writel 0x10104 0xFEDCBA98, Writel 0x14004 3,
          Writel 0x11000 1, Writel 0x10030 0xff, Writel 0x10020 0xff, Writel 0x10000 0,
          Writel 0x10050 0xff, Writel 0x10014 0]
           = [] @ body
               @ [Writel (va (sample_dev 0 0 []) + REG_NS_V9_CTRL_PROT_EN_PER_VID_SET (regs9 sample_hdr))
                    (ALL_VIDS_BITMAP (vals sample_hdr)),
                  Writel (va (sample_dev 0 0 []) + REG_NS_V9_CFG_MPTW_ATTRIBUTE (regs9 sample_hdr)) 0])
   \<and> s2mpu_suspend sample_hdr (sample_env (sample_rd_child 0x20000000 8) donate_ok) sample_mpt_ops
      ops_v1_v2 (sample_dev 0 0 [0x20000]) []
     = Some (0, sample_dev 0x20000000 0xFEDCBA98 [0x20000],
         [Readl 0x10060 0x20000000, Readl 0x10100 8, Writel 0x10104 0xFEDCBA98, Writel 0x14004 0,
          Writel 0x11000 1, Writel 0x20000 1, Readl 0x20004 1, Readl 0x10068 0,
          Writel 0x10020 0xff, Writel 0x10010 0, Writel 0x10004 0, Writel 0x10000 0xb])
   \<and> (\<exists>body ctrl0.
         [Readl 0x10060 0x20000000, Readl 0x10100 8, Writel 0x10104 0xFEDCBA98, Writel 0x14004 0,
          Writel 0x11000 1, Writel 0x20000 1, Readl 0x20004 1, Readl 0x10068 0,
          Writel 0x10020 0xff, Writel 0x10010 0, Writel 0x10004 0, Writel 0x10000 0xb]
           = [] @ body
               @ [Writel (va (sample_dev 0 0 [0x20000]) + REG_NS_CTRL0 (regs sample_hdr)) ctrl0]
         \<and> ctrl0 AND CTRL0_ENABLE (vals sample_hdr) = CTRL0_ENABLE (vals sample_hdr)
         \<and> ctrl0 = CTRL0_ENABLE (vals sample_hdr) OR CTRL0_INTERRUPT_ENABLE (vals sample_hdr)
                     OR CTRL0_FAULT_RESP_TYPE_DECERR (vals sample_hdr))
   \<and> s2mpu_suspend sample_hdr (sample_env (sample_rd 0x11000000 8) donate_ok) sample_mpt_ops
      ops_v1_v2 (sample_dev 0 0 []) []
     = Some (0, sample_dev 0x11000000 0 [],
         [Readl 0x10060 0x11000000, Writel 0x14004 0, Writel 0x11000 1,
          Writel 0x10020 0xff, Writel 0x10010 0, Writel 0x10004 0, Writel 0x10000 0x7])
   \<and> (\<exists>body ctrl0.
         [Readl 0x10060 0x11000000, Writel 0x14004 0, Writel 0x11000 1,
          Writel 0x10020 0xff, Writel 0x10010 0, Writel 0x10004 0, Writel 0x10000 0x7]
           = [] @ body @ [Writel (va (sample_dev 0 0 []) + REG_NS_CTRL0 (regs sample_hdr)) ctrl0]
         \<and> ctrl0 AND CTRL0_ENABLE (vals sample_hdr) = CTRL0_ENABLE (vals sample_hdr)
         \<and> ctrl0 = CTRL0_ENABLE (vals sample_hdr) OR CTRL0_INTERRUPT_ENABLE (vals sample_hdr)
                     OR CTRL0_FAULT_RESP_TYPE_SLVERR (vals sample_hdr))
   \<and> s2mpu_suspend sample_hdr (sample_env (sample_rd 0x90000000 8) donate_ok) sample_mpt_ops
      ops_v9 (sample_dev 0 0 []) []
     = Some (0, sample_dev 0 0xFEDCBA98 [],
         [Readl 0x10100 8, Writel 0x10104 0xFEDCBA98, Writel 0x14004 0,
          Writel 0x11000 1, Writel 0x10030 0xff, Writel 0x10020 0xff, Writel 0x10000 0,
          Writel 0x10050 0xff, Writel 0x10014 0])
   \<and> (\<exists>body.
         [Readl 0x10100 8, Writel 0x10104 0xFEDCBA98, Writel 0x14004 0,
          Writel 0x11000 1, Writel 0x10030 0xff, Writel 0x10020 0xff, Writel 0x10000 0,
          Writel 0x10050 0xff, Writel 0x10014 0]
           = [] @ body
               @ [Writel (va (sample_dev 0 0 []) + REG_NS_V9_CTRL_PROT_EN_PER_VID_SET (regs9 sample_hdr))
                    (ALL_VIDS_BITMAP (vals sample_hdr)),
                  Writel (va (sample_dev 0 0 []) + REG_NS_V9_CFG_MPTW_ATTRIBUTE (regs9 sample_hdr)) 0])"
proof -
  have v2: "is_version sample_hdr (sample_dev 0x20000000 0xFEDCBA98 kids)
      (S2MPU_VERSION_2 (vals sample_hdr))" for kids
    by (simp add: sample_dev_version) (simp add: sample_defs)
  have v1: "is_version sample_hdr (sample_dev 0x11000000 0 [])
      (S2MPU_VERSION_1 (vals sample_hdr))"
    by (simp add: sample_dev_version) (simp add: sample_defs)
  show ?thesis
    using v2 v1
      bringup_leaves_device_enabled [OF disjI1 [OF sample_resume_v2] sample_v1_ne_v2]
      bringup_leaves_device_enabled [OF disjI1 [OF sample_resume_v9] sample_v1_ne_v2]
      bringup_leaves_device_enabled [OF disjI2 [OF sample_suspend_v2_child] sample_v1_ne_v2]
      bringup_leaves_device_enabled [OF disjI2 [OF sample_suspend_v1] sample_v1_ne_v2]
      bringup_leaves_device_enabled [OF disjI2 [OF sample_suspend_v9] sample_v1_ne_v2]
    by (simp only: s2mpu_reg_ops.case)
       (intro conjI sample_resume_v2 sample_suspend_v2_child sample_suspend_v1
          sample_suspend_v9; blast)
qed

subsection \<open>Failure of the driver initialisation\<close>









end
